theory Spec2Isabelle
  imports Main
begin

section \<open>Python values, exceptions and the local file system\<close>

text \<open>
  The program is one Python module, \<^verbatim>\<open>main.py\<close>: a downloader class, an uploader
  class and the driver \<^verbatim>\<open>main\<close>. Everything outside the module (the browser driver,
  Instaloader, the \<^verbatim>\<open>requests\<close> client, \<^verbatim>\<open>hashlib\<close>) is a parameter of the model;
  the theorems hold for every behaviour of these collaborators.
\<close>

type_synonym bytes = string
type_synonym path = string

text \<open>A decoded JSON document. Python's \<^verbatim>\<open>None\<close> is \<open>JNull\<close>.\<close>

datatype json =
    JNull
  | JBool bool
  | JNum int
  | JStr string
  | JArr "json list"
  | JObj "(string \<times> json) list"

text \<open>
  A \<^verbatim>\<open>requests.Response\<close>: its status code and the result of decoding its body
  (\<open>None\<close> when the body is not JSON).
\<close>

datatype response = Response (status_code: int) (payload: "json option")

text \<open>
  The exceptions the module can meet. \<open>RequestException\<close> stands for
  \<^verbatim>\<open>requests.RequestException\<close> and its subclasses; it is the only one that carries a
  \<^verbatim>\<open>response\<close> attribute (which may be \<^verbatim>\<open>None\<close>).
\<close>

datatype exn =
    RequestException "response option"
  | ValueError string
  | AttributeError string
  | OSError string
  | IndexError
  | OtherError string

fun has_response_attr :: "exn \<Rightarrow> bool" where
  "has_response_attr (RequestException r) = True"
| "has_response_attr e = False"

text \<open>
  The regular files of the local file system, in directory-listing order: full path and
  content. \<^verbatim>\<open>os.path.getsize\<close> is the length of the content.
\<close>

type_synonym fs = "(path \<times> bytes) list"

text \<open>
  The state threaded through the program: the local files and the number of interactions
  with remote collaborators made so far. The counter lets a collaborator answer the same
  request differently at different times.
\<close>

record world =
  files :: fs
  calls :: nat

definition tick :: "world \<Rightarrow> world" where
  "tick w = w\<lparr>calls := Suc (calls w)\<rparr>"

subsection \<open>Python strings and \<^verbatim>\<open>os.path\<close>\<close>

text \<open>
  \<^verbatim>\<open>s.startswith(p)\<close>, \<^verbatim>\<open>s.endswith(p)\<close>, \<^verbatim>\<open>sub in s\<close> and
  \<^verbatim>\<open>s.split(sep)\<close> for a separator of one character.
\<close>

definition startswith :: "string \<Rightarrow> string \<Rightarrow> bool" where
  "startswith s p = (take (length p) s = p)"

definition endswith :: "string \<Rightarrow> string \<Rightarrow> bool" where
  "endswith s p = (length p \<le> length s \<and> drop (length s - length p) s = p)"

fun str_in :: "string \<Rightarrow> string \<Rightarrow> bool" where
  "str_in sub [] = (sub = [])"
| "str_in sub (c # cs) = (startswith (c # cs) sub \<or> str_in sub cs)"

fun split_from :: "char \<Rightarrow> string \<Rightarrow> string \<Rightarrow> string list" where
  "split_from sep cur [] = [cur]"
| "split_from sep cur (c # cs) =
     (if c = sep then cur # split_from sep [] cs else split_from sep (cur @ [c]) cs)"

definition split_on :: "char \<Rightarrow> string \<Rightarrow> string list" where
  "split_on sep s = split_from sep [] s"

text \<open>
  \<^verbatim>\<open>xs[i]\<close>: a negative index counts from the end, and an index outside the list
  raises \<^verbatim>\<open>IndexError\<close>.
\<close>

definition py_index :: "'a list \<Rightarrow> int \<Rightarrow> exn + 'a" where
  "py_index xs i =
     (if 0 \<le> i \<and> i < int (length xs) then Inr (xs ! nat i)
      else if i < 0 \<and> - int (length xs) \<le> i then Inr (xs ! nat (int (length xs) + i))
      else Inl IndexError)"

text \<open>The decimal numeral of an integer, as an f-string renders it.\<close>

fun str_nat :: "nat \<Rightarrow> string" where
  "str_nat n =
     (if n < 10 then [''0123456789'' ! n]
      else str_nat (n div 10) @ [''0123456789'' ! (n mod 10)])"

declare str_nat.simps [simp del]

definition str_int :: "int \<Rightarrow> string" where
  "str_int i = (if i < 0 then CHR ''-'' # str_nat (nat (- i)) else str_nat (nat i))"

text \<open>
  \<^verbatim>\<open>os.path.join\<close> of two components on a POSIX system: an absolute second component
  replaces the first, and a separator is inserted unless the first is empty or ends with
  one.
\<close>

definition os_path_join :: "path \<Rightarrow> string \<Rightarrow> path" where
  "os_path_join a b =
     (if startswith b ''/'' then b
      else if a = [] \<or> last a = CHR ''/'' then a @ b
      else a @ ''/'' @ b)"

definition os_path_exists :: "fs \<Rightarrow> path \<Rightarrow> bool" where
  "os_path_exists fs p = (map_of fs p \<noteq> None)"

definition os_path_getsize :: "fs \<Rightarrow> path \<Rightarrow> exn + int" where
  "os_path_getsize fs p =
     (case map_of fs p of
        None \<Rightarrow> Inl (OSError ''FileNotFoundError'')
      | Some content \<Rightarrow> Inr (int (length content)))"

text \<open>
  \<^verbatim>\<open>os.listdir(d)\<close> yields the names of the entries of \<open>d\<close>, here the regular files
  directly inside it, in the order in which the file system holds them; the order is
  whatever the file system makes it, and the collaborators that write files decide it. The
  empty path names no directory.
\<close>

definition entry_name :: "path \<Rightarrow> path \<Rightarrow> string option" where
  "entry_name d p =
     (let pre = os_path_join d [];
          name = drop (length pre) p
      in if startswith p pre \<and> name \<noteq> [] \<and> CHR ''/'' \<notin> set name then Some name else None)"

definition os_listdir :: "fs \<Rightarrow> path \<Rightarrow> exn + string list" where
  "os_listdir fs d =
     (if d = [] then Inl (OSError ''FileNotFoundError'')
      else Inr (List.map_filter (\<lambda>(p, content). entry_name d p) fs))"

text \<open>
  \<^verbatim>\<open>os.rename(src, dst)\<close> on a POSIX system: a regular file at \<open>dst\<close> is replaced
  silently, renaming a file to itself changes nothing, and a missing \<open>src\<close> raises.
  \<^verbatim>\<open>os.remove(p)\<close> raises when \<open>p\<close> does not exist.
\<close>

definition os_rename :: "fs \<Rightarrow> path \<Rightarrow> path \<Rightarrow> exn + fs" where
  "os_rename fs src dst =
     (if \<not> os_path_exists fs src then Inl (OSError ''FileNotFoundError'')
      else if src = dst then Inr fs
      else Inr (map (\<lambda>(p, content). if p = src then (dst, content) else (p, content))
                  (filter (\<lambda>(p, content). p \<noteq> dst) fs)))"

definition os_remove :: "fs \<Rightarrow> path \<Rightarrow> exn + fs" where
  "os_remove fs p =
     (if \<not> os_path_exists fs p then Inl (OSError ''FileNotFoundError'')
      else Inr (filter (\<lambda>(q, content). q \<noteq> p) fs))"

section \<open>The \<^verbatim>\<open>requests\<close> client\<close>

datatype request =
    Get string "(string \<times> string) list" json
  | Put json bytes "(string \<times> string) list"
  | Post string "(string \<times> string) list" json

text \<open>
  The network: what the \<open>n\<close>-th request of the run yields, an exception raised by the
  client or a response.
\<close>

type_synonym network = "nat \<Rightarrow> request \<Rightarrow> exn + response"

definition send :: "network \<Rightarrow> request \<Rightarrow> world \<Rightarrow> (exn + response) \<times> world" where
  "send net rq w = (net (calls w) rq, tick w)"

text \<open>
  \<^verbatim>\<open>Response.raise_for_status\<close> raises \<^verbatim>\<open>HTTPError\<close> (a \<^verbatim>\<open>RequestException\<close> carrying
  the response) for the client and server error codes 400 to 599, and nothing otherwise.
\<close>

definition raise_for_status :: "response \<Rightarrow> exn + unit" where
  "raise_for_status r =
     (if 400 \<le> status_code r \<and> status_code r < 600
      then Inl (RequestException (Some r)) else Inr ())"

text \<open>
  \<^verbatim>\<open>Response.json\<close> raises \<^verbatim>\<open>requests.exceptions.JSONDecodeError\<close>, a
  \<^verbatim>\<open>RequestException\<close> without response, when the body does not decode.
\<close>

definition response_json :: "response \<Rightarrow> exn + json" where
  "response_json r = (case payload r of None \<Rightarrow> Inl (RequestException None) | Some j \<Rightarrow> Inr j)"

text \<open>
  \<^verbatim>\<open>d.get(k)\<close>: on a dict the value of the key, or \<^verbatim>\<open>None\<close>; the last of several
  equal keys of the JSON text wins. Every other JSON value has no \<^verbatim>\<open>get\<close>.
\<close>

fun py_get :: "json \<Rightarrow> string \<Rightarrow> exn + json" where
  "py_get (JObj kvs) k = Inr (case map_of (rev kvs) k of None \<Rightarrow> JNull | Some v \<Rightarrow> v)"
| "py_get j k = Inl (AttributeError ''get'')"

section \<open>\<^verbatim>\<open>VideoDownloader\<close>\<close>

text \<open>
  The browser is a parameter: the search for a query either fails (any step from loading
  the page to locating the result links raises) or yields the result links, and reading
  the \<^verbatim>\<open>href\<close> of a link either raises or gives a string or \<^verbatim>\<open>None\<close>. Instaloader
  is a parameter too: asked for a shortcode (\<^verbatim>\<open>Post.from_shortcode\<close> followed by
  \<^verbatim>\<open>download_post\<close>), it leaves the file system in some state and may raise. Both may
  answer differently at different times.
\<close>

type_synonym link_element = "exn + string option"

type_synonym browser = "nat \<Rightarrow> string \<Rightarrow> exn + link_element list"

type_synonym instaloader = "nat \<Rightarrow> string \<Rightarrow> fs \<Rightarrow> exn option \<times> fs"

text \<open>
  The loop \<^verbatim>\<open>for link in result_links\<close> of \<^verbatim>\<open>find_video_links\<close>; an exception raised
  for one link is logged and the loop goes on. The outer handler answers every failure of
  the search with the empty list.
\<close>

fun collect_reels :: "int \<Rightarrow> link_element list \<Rightarrow> string list \<Rightarrow> string list" where
  "collect_reels max_videos [] reel_links = reel_links"
| "collect_reels max_videos (link # result_links) reel_links =
     (case link of
        Inl link_error \<Rightarrow> collect_reels max_videos result_links reel_links
      | Inr None \<Rightarrow> collect_reels max_videos result_links reel_links
      | Inr (Some href) \<Rightarrow>
          if href \<noteq> [] \<and> str_in ''/reel/'' href
          then (if max_videos \<le> int (length (reel_links @ [href])) then reel_links @ [href]
                else collect_reels max_videos result_links (reel_links @ [href]))
          else collect_reels max_videos result_links reel_links)"

definition find_video_links ::
  "browser \<Rightarrow> string \<Rightarrow> int \<Rightarrow> world \<Rightarrow> string list \<times> world" where
  "find_video_links B keyword max_videos w =
     (case B (calls w) (''site:instagram.com '' @ keyword @ '' reel'') of
        Inl e \<Rightarrow> ([], tick w)
      | Inr result_links \<Rightarrow> (collect_reels max_videos result_links [], tick w))"

text \<open>
  \<^verbatim>\<open>video_url.split('/')[-2] if '/reel/' in video_url else None\<close>
\<close>

definition shortcode_of :: "string \<Rightarrow> exn + string option" where
  "shortcode_of video_url =
     (if str_in ''/reel/'' video_url
      then (case py_index (split_on CHR ''/'' video_url) (- 2) of
              Inl e \<Rightarrow> Inl e
            | Inr s \<Rightarrow> Inr (Some s))
      else Inr None)"

text \<open>
  The final check of \<^verbatim>\<open>download_video\<close>:
  \<^verbatim>\<open>os.path.exists(full_path) and os.path.getsize(full_path) > 0\<close>.
\<close>

definition verify_download :: "path \<Rightarrow> world \<Rightarrow> path option \<times> world" where
  "verify_download full_path w =
     (if os_path_exists (files w) full_path
      then (case os_path_getsize (files w) full_path of
              Inl e \<Rightarrow> (None, w)
            | Inr file_size \<Rightarrow> (if 0 < file_size then Some full_path else None, w))
      else (None, w))"

text \<open>
  \<^verbatim>\<open>download_video\<close>. Every exception is answered with \<^verbatim>\<open>None\<close>: those of the
  Instaloader calls, of \<^verbatim>\<open>os.listdir\<close> and of \<^verbatim>\<open>os.rename\<close> by the inner handler,
  the others by the outer one. The loop over the listing renames the first name that ends
  with \<^verbatim>\<open>.mp4\<close> and breaks.
\<close>

definition download_video ::
  "instaloader \<Rightarrow> path \<Rightarrow> string \<Rightarrow> int \<Rightarrow> world \<Rightarrow> path option \<times> world" where
  "download_video L download_path video_url index w =
     (case shortcode_of video_url of
        Inl e \<Rightarrow> (None, w)
      | Inr None \<Rightarrow> (None, w)
      | Inr (Some shortcode) \<Rightarrow>
          if shortcode = [] then (None, w)
          else
            (let sanitized_filename =
                   ''instagram_video_'' @ str_int index @ ''_'' @ shortcode @ ''.mp4'';
                 full_path = os_path_join download_path sanitized_filename
             in case L (calls w) shortcode (files w) of
                  (Some download_error, fs1) \<Rightarrow> (None, \<lparr>files = fs1, calls = Suc (calls w)\<rparr>)
                | (None, fs1) \<Rightarrow>
                    (case os_listdir fs1 download_path of
                       Inl download_error \<Rightarrow> (None, \<lparr>files = fs1, calls = Suc (calls w)\<rparr>)
                     | Inr listing \<Rightarrow>
                         (case find (\<lambda>filename. endswith filename ''.mp4'') listing of
                            None \<Rightarrow> verify_download full_path \<lparr>files = fs1, calls = Suc (calls w)\<rparr>
                          | Some filename \<Rightarrow>
                              (case os_rename fs1 (os_path_join download_path filename) full_path of
                                 Inl download_error \<Rightarrow>
                                   (None, \<lparr>files = fs1, calls = Suc (calls w)\<rparr>)
                               | Inr fs2 \<Rightarrow>
                                   verify_download full_path
                                     \<lparr>files = fs2, calls = Suc (calls w)\<rparr>)))))"

text \<open>
  \<^verbatim>\<open>asyncio.gather\<close> over the coroutines of \<^verbatim>\<open>download_video\<close>: the coroutines
  contain no \<^verbatim>\<open>await\<close>, so the event loop runs each one to its end before it starts the
  next, in the order of the list, and the results come back in that order.
\<close>

fun download_all ::
  "instaloader \<Rightarrow> path \<Rightarrow> (nat \<times> string) list \<Rightarrow> world \<Rightarrow> path option list \<times> world" where
  "download_all L download_path [] w = ([], w)"
| "download_all L download_path ((index, link) # tasks) w =
     (case download_video L download_path link (int index) w of
        (v, w1) \<Rightarrow>
          (case download_all L download_path tasks w1 of
             (vs, w2) \<Rightarrow> (v # vs, w2)))"

text \<open>\<^verbatim>\<open>[v for v in downloaded_videos if v]\<close>\<close>

fun truthy :: "path option list \<Rightarrow> path list" where
  "truthy [] = []"
| "truthy (None # vs) = truthy vs"
| "truthy (Some v # vs) = (if v \<noteq> [] then v # truthy vs else truthy vs)"

definition download_videos ::
  "browser \<Rightarrow> instaloader \<Rightarrow> path \<Rightarrow> string \<Rightarrow> int \<Rightarrow> world \<Rightarrow> path list \<times> world" where
  "download_videos B L download_path keyword max_videos w =
     (case find_video_links B keyword max_videos w of
        (video_links, w0) \<Rightarrow>
          (case download_all L download_path (enumerate 1 video_links) w0 of
             (downloaded_videos, w1) \<Rightarrow> (truthy downloaded_videos, w1)))"

section \<open>\<^verbatim>\<open>VideoUploader\<close>\<close>

subsection \<open>\<^verbatim>\<open>generate_file_hash\<close>\<close>

text \<open>
  \<^verbatim>\<open>hashlib.sha256\<close> is a parameter: the fresh hash object, \<^verbatim>\<open>update\<close> and
  \<^verbatim>\<open>hexdigest\<close>.
\<close>

record 's hasher =
  h_new :: 's
  h_update :: "'s \<Rightarrow> bytes \<Rightarrow> 's"
  h_hexdigest :: "'s \<Rightarrow> string"

text \<open>
  The contract of \<^verbatim>\<open>hashlib\<close>: repeated calls of \<^verbatim>\<open>update\<close> are equivalent to a single
  call with the concatenation of the arguments.
\<close>

definition hashlib_contract :: "'s hasher \<Rightarrow> bool" where
  "hashlib_contract H \<longleftrightarrow>
     (\<forall>s. h_update H s [] = s) \<and>
     (\<forall>s a b. h_update H (h_update H s a) b = h_update H s (a @ b))"

text \<open>
  \<^verbatim>\<open>for byte_block in iter(lambda: f.read(4096), b""): sha256_hash.update(byte_block)\<close>,
  on the bytes of the file not yet read.
\<close>

function read_blocks :: "'s hasher \<Rightarrow> bytes \<Rightarrow> 's \<Rightarrow> 's" where
  "read_blocks H rest sha256_hash =
     (if take 4096 rest = [] then sha256_hash
      else read_blocks H (drop 4096 rest) (h_update H sha256_hash (take 4096 rest)))"
  by pat_completeness auto
termination
  by (relation "measure (\<lambda>(H, rest, s). length rest)") auto

definition generate_file_hash :: "'s hasher \<Rightarrow> fs \<Rightarrow> path \<Rightarrow> exn + string" where
  "generate_file_hash H fs file_path =
     (case map_of fs file_path of
        None \<Rightarrow> Inl (OSError ''FileNotFoundError'')
      | Some content \<Rightarrow> Inr (h_hexdigest H (read_blocks H content (h_new H))))"

text \<open>The digest of a byte string handed to the hash object in one piece.\<close>

definition sha256_hex :: "'s hasher \<Rightarrow> bytes \<Rightarrow> string" where
  "sha256_hex H content = h_hexdigest H (h_update H (h_new H) content)"

subsection \<open>\<^verbatim>\<open>get_upload_url\<close>, \<^verbatim>\<open>upload_video\<close>, \<^verbatim>\<open>create_post\<close>\<close>

definition base_url :: string where
  "base_url = ''https://api.socialverseapp.com''"

text \<open>The dict that \<^verbatim>\<open>get_upload_url\<close> returns.\<close>

record upload_info =
  upload_url :: json
  hash :: json

definition upload_url_request :: "string \<Rightarrow> string \<Rightarrow> int \<Rightarrow> request" where
  "upload_url_request flic_token file_hash file_size =
     Get (base_url @ ''/posts/generate-upload-url'')
       [(''Flic-Token'', flic_token), (''Content-Type'', ''application/json'')]
       (JObj [(''hash'', JStr file_hash), (''file_size'', JNum file_size)])"

text \<open>
  The handler \<^verbatim>\<open>except requests.RequestException\<close> of \<^verbatim>\<open>get_upload_url\<close> logs and
  re-raises, and every other exception passes it by: whatever is raised inside the
  \<^verbatim>\<open>try\<close> reaches the caller unchanged.
\<close>

definition get_upload_url ::
  "'s hasher \<Rightarrow> network \<Rightarrow> string \<Rightarrow> path \<Rightarrow> world \<Rightarrow> (exn + upload_info) \<times> world" where
  "get_upload_url H net flic_token file_path w =
     (case generate_file_hash H (files w) file_path of
        Inl e \<Rightarrow> (Inl e, w)
      | Inr file_hash \<Rightarrow>
     (case os_path_getsize (files w) file_path of
        Inl e \<Rightarrow> (Inl e, w)
      | Inr file_size \<Rightarrow>
     (case send net (upload_url_request flic_token file_hash file_size) w of
        (Inl e, w1) \<Rightarrow> (Inl e, w1)
      | (Inr response, w1) \<Rightarrow>
     (case raise_for_status response of
        Inl e \<Rightarrow> (Inl e, w1)
      | Inr u \<Rightarrow>
     (case response_json response of
        Inl e \<Rightarrow> (Inl e, w1)
      | Inr upload_data \<Rightarrow>
     (case py_get upload_data ''url'' of
        Inl e \<Rightarrow> (Inl e, w1)
      | Inr url \<Rightarrow>
     (case py_get upload_data ''hash'' of
        Inl e \<Rightarrow> (Inl e, w1)
      | Inr h \<Rightarrow> (Inr \<lparr>upload_url = url, hash = h\<rparr>, w1))))))))"

text \<open>
  \<^verbatim>\<open>upload_video\<close> catches \<^verbatim>\<open>requests.RequestException\<close> only and answers it with
  \<^verbatim>\<open>False\<close>; a failure of \<^verbatim>\<open>open\<close> is raised to the caller.
\<close>

fun is_RequestException :: "exn \<Rightarrow> bool" where
  "is_RequestException (RequestException r) = True"
| "is_RequestException e = False"

definition upload_video :: "network \<Rightarrow> path \<Rightarrow> json \<Rightarrow> world \<Rightarrow> (exn + bool) \<times> world" where
  "upload_video net file_path url w =
     (case map_of (files w) file_path of
        None \<Rightarrow> (Inl (OSError ''FileNotFoundError''), w)
      | Some content \<Rightarrow>
     (case send net (Put url content [(''Content-Type'', ''application/octet-stream'')]) w of
        (Inl e, w1) \<Rightarrow> (if is_RequestException e then Inr False else Inl e, w1)
      | (Inr response, w1) \<Rightarrow>
     (case raise_for_status response of
        Inl e \<Rightarrow> (if is_RequestException e then Inr False else Inl e, w1)
      | Inr u \<Rightarrow> (Inr True, w1))))"

definition create_post_request :: "string \<Rightarrow> json \<Rightarrow> string \<Rightarrow> int \<Rightarrow> request" where
  "create_post_request flic_token file_hash title category_id =
     Post (base_url @ ''/posts'')
       [(''Flic-Token'', flic_token), (''Content-Type'', ''application/json'')]
       (JObj [(''title'', JStr title), (''hash'', file_hash),
              (''is_available_in_public_feed'', JBool False), (''category_id'', JNum category_id)])"

text \<open>
  \<^verbatim>\<open>create_post\<close> reads \<^verbatim>\<open>post_data.get('id')\<close> for its log line before it returns
  \<^verbatim>\<open>post_data\<close>; its handler logs and re-raises.
\<close>

definition create_post ::
  "network \<Rightarrow> string \<Rightarrow> json \<Rightarrow> string \<Rightarrow> int \<Rightarrow> world \<Rightarrow> (exn + json) \<times> world" where
  "create_post net flic_token file_hash title category_id w =
     (case send net (create_post_request flic_token file_hash title category_id) w of
        (Inl e, w1) \<Rightarrow> (Inl e, w1)
      | (Inr response, w1) \<Rightarrow>
     (case raise_for_status response of
        Inl e \<Rightarrow> (Inl e, w1)
      | Inr u \<Rightarrow>
     (case response_json response of
        Inl e \<Rightarrow> (Inl e, w1)
      | Inr post_data \<Rightarrow>
     (case py_get post_data ''id'' of
        Inl e \<Rightarrow> (Inl e, w1)
      | Inr i \<Rightarrow> (Inr post_data, w1)))))"

subsection \<open>\<^verbatim>\<open>upload_video_to_socialverse\<close>\<close>

text \<open>The calls that \<^verbatim>\<open>upload_video_to_socialverse\<close> makes, in order.\<close>

datatype step =
    Call_get_upload_url path
  | Call_upload_video path json
  | Call_create_post json string int

text \<open>
  The handler \<^verbatim>\<open>except Exception as e\<close>: it logs, evaluates \<^verbatim>\<open>e.response is not None\<close>
  and re-raises with a bare \<^verbatim>\<open>raise\<close>. Reading \<^verbatim>\<open>e.response\<close> of an exception that has
  no such attribute raises \<^verbatim>\<open>AttributeError\<close> inside the handler, and that exception is
  the one that leaves the function.
\<close>

definition except_handler :: "exn \<Rightarrow> exn" where
  "except_handler e = (if has_response_attr e then e else AttributeError ''response'')"

definition upload_video_to_socialverse ::
  "'s hasher \<Rightarrow> network \<Rightarrow> string \<Rightarrow> path \<Rightarrow> string \<Rightarrow> int \<Rightarrow> world
     \<Rightarrow> step list \<times> (exn + json) \<times> world" where
  "upload_video_to_socialverse H net flic_token file_path title category_id w =
     (case get_upload_url H net flic_token file_path w of
        (Inl e, w1) \<Rightarrow> ([Call_get_upload_url file_path], Inl (except_handler e), w1)
      | (Inr upload_info, w1) \<Rightarrow>
     (case upload_video net file_path (upload_url upload_info) w1 of
        (Inl e, w2) \<Rightarrow>
          ([Call_get_upload_url file_path, Call_upload_video file_path (upload_url upload_info)],
           Inl (except_handler e), w2)
      | (Inr upload_success, w2) \<Rightarrow>
          if \<not> upload_success
          then ([Call_get_upload_url file_path,
                 Call_upload_video file_path (upload_url upload_info)],
                Inl (except_handler (ValueError ''Video upload failed'')), w2)
          else
     (case create_post net flic_token (hash upload_info) title category_id w2 of
        (Inl e, w3) \<Rightarrow>
          ([Call_get_upload_url file_path, Call_upload_video file_path (upload_url upload_info),
            Call_create_post (hash upload_info) title category_id],
           Inl (except_handler e), w3)
      | (Inr post_data, w3) \<Rightarrow>
          ([Call_get_upload_url file_path, Call_upload_video file_path (upload_url upload_info),
            Call_create_post (hash upload_info) title category_id],
           Inr post_data, w3))))"

section \<open>\<^verbatim>\<open>main\<close>\<close>

text \<open>
  What a run of \<^verbatim>\<open>main\<close> does, in order: the calls of \<^verbatim>\<open>download_videos\<close> with the
  number of the attempt and the outcome, the calls of \<^verbatim>\<open>asyncio.sleep\<close> with the
  seconds, closing the browser, the calls of \<^verbatim>\<open>upload_video_to_socialverse\<close> with the
  file and the outcome, and the files removed.
\<close>

datatype event =
    Attempt nat "exn + path list"
  | Sleep nat
  | Close
  | Publish path "exn + json"
  | Remove path

text \<open>The calls of \<^verbatim>\<open>download_videos\<close> among the events.\<close>

fun is_attempt :: "event \<Rightarrow> bool" where
  "is_attempt (Attempt k r) = True"
| "is_attempt e = False"

text \<open>
  \<^verbatim>\<open>for attempt in range(max_retries)\<close>: a non-empty result breaks the loop, an empty one
  is logged, and an exception is logged and followed by \<^verbatim>\<open>asyncio.sleep(3)\<close>.
\<close>

fun retry_loop ::
  "(world \<Rightarrow> (exn + path list) \<times> world) \<Rightarrow> nat list \<Rightarrow> path list \<Rightarrow> world
     \<Rightarrow> event list \<times> path list \<times> world" where
  "retry_loop attempt_download [] downloaded_files w = ([], downloaded_files, w)"
| "retry_loop attempt_download (attempt # attempts) downloaded_files w =
     (case attempt_download w of
        (Inl retry_error, w1) \<Rightarrow>
          (case retry_loop attempt_download attempts downloaded_files w1 of
             (evs, r, w2) \<Rightarrow> (Attempt attempt (Inl retry_error) # Sleep 3 # evs, r, w2))
      | (Inr new_files, w1) \<Rightarrow>
          if new_files \<noteq> [] then ([Attempt attempt (Inr new_files)], new_files, w1)
          else
            (case retry_loop attempt_download attempts new_files w1 of
               (evs, r, w2) \<Rightarrow> (Attempt attempt (Inr new_files) # evs, r, w2)))"

text \<open>
  \<^verbatim>\<open>for video_path in downloaded_files\<close>, inside one \<^verbatim>\<open>try\<close>: the handler
  \<^verbatim>\<open>except Exception\<close> is outside the loop, so an exception raised by the upload, by
  \<^verbatim>\<open>os.remove\<close> or by \<^verbatim>\<open>post_response.get\<close> ends the loop.
\<close>

fun upload_loop ::
  "(path \<Rightarrow> world \<Rightarrow> (exn + json) \<times> world) \<Rightarrow> path list \<Rightarrow> world \<Rightarrow> event list \<times> world" where
  "upload_loop publish [] w = ([], w)"
| "upload_loop publish (video_path # downloaded_files) w =
     (case publish video_path w of
        (Inl e, w1) \<Rightarrow> ([Publish video_path (Inl e)], w1)
      | (Inr post_response, w1) \<Rightarrow>
          (case os_remove (files w1) video_path of
             Inl e \<Rightarrow> ([Publish video_path (Inr post_response)], w1)
           | Inr fs1 \<Rightarrow>
               (case py_get post_response ''id'' of
                  Inl e \<Rightarrow>
                    ([Publish video_path (Inr post_response), Remove video_path],
                     w1\<lparr>files := fs1\<rparr>)
                | Inr post_id \<Rightarrow>
                    (case upload_loop publish downloaded_files (w1\<lparr>files := fs1\<rparr>) of
                       (evs, w2) \<Rightarrow>
                         (Publish video_path (Inr post_response) # Remove video_path # evs,
                          w2)))))"

text \<open>
  The two awaited calls of \<^verbatim>\<open>main\<close>. \<^verbatim>\<open>download_videos\<close> handles every exception
  of its collaborators itself.
\<close>

definition await_download_videos ::
  "browser \<Rightarrow> instaloader \<Rightarrow> path \<Rightarrow> string \<Rightarrow> int \<Rightarrow> world \<Rightarrow> (exn + path list) \<times> world" where
  "await_download_videos B L download_path keyword max_videos w =
     (case download_videos B L download_path keyword max_videos w of
        (downloaded_files, w1) \<Rightarrow> (Inr downloaded_files, w1))"

definition await_upload ::
  "'s hasher \<Rightarrow> network \<Rightarrow> string \<Rightarrow> string \<Rightarrow> path \<Rightarrow> world \<Rightarrow> (exn + json) \<times> world" where
  "await_upload H net flic_token keyword video_path w =
     (case upload_video_to_socialverse H net flic_token video_path
             (''Instagram Reel: '' @ keyword) 25 w of
        (steps, r, w1) \<Rightarrow> (r, w1))"

definition main_flic_token :: string where
  "main_flic_token = ''flic_16a53d750040604a11c71ae66b138ee44b85929c51fa21abe26db4167627552b''"

definition main ::
  "browser \<Rightarrow> instaloader \<Rightarrow> 's hasher \<Rightarrow> network \<Rightarrow> string \<Rightarrow> world \<Rightarrow> event list \<times> world" where
  "main B L H net SEARCH_KEYWORD w =
     (case retry_loop (await_download_videos B L ''instagram_videos'' SEARCH_KEYWORD 5)
             [0..<3] [] w of
        (evs1, downloaded_files, w1) \<Rightarrow>
          if downloaded_files \<noteq> []
          then (case upload_loop (await_upload H net main_flic_token SEARCH_KEYWORD)
                       downloaded_files w1 of
                  (evs2, w2) \<Rightarrow> (evs1 @ Close # evs2, w2))
          else (evs1 @ [Close], w1))"

section \<open>Answers that \<^verbatim>\<open>get_upload_url\<close> rejects\<close>

text \<open>
  An answer to the request for an upload slot is rejected when the client raises, when the
  status is a client or server error, when the body is not JSON, or when the JSON
  document is not an object.
\<close>

fun is_dict :: "json \<Rightarrow> bool" where
  "is_dict (JObj kvs) = True"
| "is_dict j = False"

definition rejected_answer :: "exn + response \<Rightarrow> bool" where
  "rejected_answer a =
     (case a of
        Inl e \<Rightarrow> True
      | Inr r \<Rightarrow> (400 \<le> status_code r \<and> status_code r < 600) \<or>
                 (case payload r of None \<Rightarrow> True | Some j \<Rightarrow> \<not> is_dict j))"

section \<open>Test doubles for the collaborators\<close>

text \<open>A hash object that keeps every byte it was fed; it honours the contract.\<close>

definition transcript_hasher :: "bytes hasher" where
  "transcript_hasher = \<lparr>h_new = [], h_update = (\<lambda>s b. s @ b), h_hexdigest = (\<lambda>s. s)\<rparr>"

text \<open>
  Networks that grant the upload slot and register posts, and refuse the transfer with
  status 403 or fail it with a time-out; and networks that answer every request with an
  empty JSON object, with status 300, or with status 500.
\<close>

definition refusing_network :: network where
  "refusing_network n rq =
     (case rq of
        Get url headers body \<Rightarrow>
          Inr (Response 200 (Some (JObj [(''url'', JStr ''https://bucket/slot''), (''hash'', JStr ''h'')])))
      | Put url content headers \<Rightarrow> Inr (Response 403 None)
      | Post url headers body \<Rightarrow> Inr (Response 200 (Some (JObj [(''id'', JNum 7)]))))"

definition one_file_world :: world where
  "one_file_world = \<lparr>files = [(''v.mp4'', ''abcde'')], calls = 0\<rparr>"

definition timeout_network :: network where
  "timeout_network n rq =
     (case rq of
        Get url headers body \<Rightarrow>
          Inr (Response 200 (Some (JObj [(''url'', JStr ''https://bucket/slot''), (''hash'', JStr ''h'')])))
      | Put url content headers \<Rightarrow> Inl (RequestException None)
      | Post url headers body \<Rightarrow> Inr (Response 200 (Some (JObj [(''id'', JNum 7)]))))"

definition empty_object_network :: network where
  "empty_object_network n rq = Inr (Response 200 (Some (JObj [])))"

definition multiple_choices_network :: network where
  "multiple_choices_network n rq =
     Inr (Response 300 (Some (JObj [(''url'', JStr ''https://bucket/slot''), (''hash'', JStr ''h'')])))"

definition server_error_network :: network where
  "server_error_network n rq = Inr (Response 500 (Some (JObj [(''message'', JStr ''boom'')])))"

text \<open>
  An Instaloader that writes the video of a post as a new file of the download directory,
  listed after the files already there; a browser whose search finds two reels; a browser
  whose first \<open>k\<close> searches find nothing and whose later ones find one reel.
\<close>

definition appending_instaloader :: instaloader where
  "appending_instaloader n shortcode fs =
     (None, fs @ [(''instagram_videos/'' @ shortcode @ ''_UTC.mp4'', ''video of '' @ shortcode)])"

definition two_reels_browser :: browser where
  "two_reels_browser n query =
     Inr [Inr (Some ''https://www.instagram.com/reel/AAA/''),
          Inr (Some ''https://www.instagram.com/reel/BBB/'')]"

definition empty_world :: world where
  "empty_world = \<lparr>files = [], calls = 0\<rparr>"

definition one_video_world :: world where
  "one_video_world =
     \<lparr>files = [(''instagram_videos/instagram_video_1_AAA.mp4'', ''video of AAA'')], calls = 2\<rparr>"

definition late_browser :: "nat \<Rightarrow> browser" where
  "late_browser k n query =
     (if n < k then Inr [] else Inr [Inr (Some ''https://www.instagram.com/reel/AAA/'')])"

text \<open>
  A network that refuses the transfer made as request number \<open>k\<close> of the run and accepts
  every other request.
\<close>

definition put_refused_at :: "nat \<Rightarrow> network" where
  "put_refused_at k n rq =
     (case rq of
        Get url headers body \<Rightarrow>
          Inr (Response 200 (Some (JObj [(''url'', JStr ''https://bucket/slot''), (''hash'', JStr ''h'')])))
      | Put url content headers \<Rightarrow> Inr (Response (if n = k then 403 else 200) None)
      | Post url headers body \<Rightarrow> Inr (Response 200 (Some (JObj [(''id'', JNum 7)]))))"

definition two_file_world :: world where
  "two_file_world = \<lparr>files = [(''a.mp4'', ''aaa''), (''b.mp4'', ''bbb'')], calls = 0\<rparr>"

section \<open>Properties\<close>

subsection \<open>The content fingerprint\<close>

lemma transcript_hasher_contract: "hashlib_contract transcript_hasher"
  by (simp add: hashlib_contract_def transcript_hasher_def)

lemma read_blocks_eq:
  "hashlib_contract H \<Longrightarrow> read_blocks H rest s = h_update H s rest"
proof (induction H rest s rule: read_blocks.induct)
  case (1 H rest s)
  show ?case
  proof (cases "take 4096 rest = []")
    case True
    then have "rest = []" by (cases rest) auto
    with 1(2) show ?thesis by (simp add: hashlib_contract_def)
  next
    case False
    have "read_blocks H rest s = read_blocks H (drop 4096 rest) (h_update H s (take 4096 rest))"
      using False by (subst read_blocks.simps) simp
    also have "\<dots> = h_update H (h_update H s (take 4096 rest)) (drop 4096 rest)"
      using 1(1)[OF False 1(2)] .
    also have "\<dots> = h_update H s (take 4096 rest @ drop 4096 rest)"
      using 1(2) by (simp add: hashlib_contract_def)
    finally show ?thesis by simp
  qed
qed

lemma foldl_update_concat:
  "hashlib_contract H \<Longrightarrow> foldl (h_update H) s chunks = h_update H s (concat chunks)"
proof (induction chunks arbitrary: s)
  case Nil
  then show ?case by (simp add: hashlib_contract_def)
next
  case (Cons c cs)
  have "foldl (h_update H) s (c # cs) = foldl (h_update H) (h_update H s c) cs" by simp
  also have "\<dots> = h_update H (h_update H s c) (concat cs)" using Cons by blast
  also have "\<dots> = h_update H s (c @ concat cs)"
    using Cons.prems unfolding hashlib_contract_def by blast
  finally show ?case by simp
qed

text \<open>
  C8. The fingerprint is deterministic and independent of chunk boundaries: for every hash
  object that honours the contract of \<^verbatim>\<open>hashlib\<close> and every file content,
  \<^verbatim>\<open>generate_file_hash\<close>, which feeds the file in blocks of 4096 bytes, returns the
  digest of the whole content, and so does every other way of cutting the content into
  the sequence of updates.
\<close>

theorem generate_file_hash_chunk_independent:
  assumes "hashlib_contract H" and "map_of fs file_path = Some content"
  shows "generate_file_hash H fs file_path = Inr (sha256_hex H content) \<and>
         (\<forall>chunks. concat chunks = content \<longrightarrow>
            h_hexdigest H (foldl (h_update H) (h_new H) chunks) = sha256_hex H content)"
proof (intro conjI allI impI)
  show "generate_file_hash H fs file_path = Inr (sha256_hex H content)"
    unfolding generate_file_hash_def sha256_hex_def
    using assms(2) read_blocks_eq [OF assms(1)] by simp
next
  fix chunks assume "concat chunks = content"
  then show "h_hexdigest H (foldl (h_update H) (h_new H) chunks) = sha256_hex H content"
    unfolding sha256_hex_def using foldl_update_concat [OF assms(1)] by simp
qed

theorem generate_file_hash_chunk_independent_witness:
  "hashlib_contract transcript_hasher \<and>
   map_of [(''v.mp4'', ''abcde'')] ''v.mp4'' = Some ''abcde'' \<and>
   generate_file_hash transcript_hasher [(''v.mp4'', ''abcde'')] ''v.mp4''
     = Inr (sha256_hex transcript_hasher ''abcde'') \<and>
   concat [''ab'', [], ''cde''] = ''abcde'' \<and>
   h_hexdigest transcript_hasher
     (foldl (h_update transcript_hasher) (h_new transcript_hasher) [''ab'', [], ''cde''])
     = sha256_hex transcript_hasher ''abcde''"
proof -
  have c: "hashlib_contract transcript_hasher" by (rule transcript_hasher_contract)
  have m: "map_of [(''v.mp4'', ''abcde'')] ''v.mp4'' = Some ''abcde''" by simp
  have k: "concat [''ab'', [], ''cde''] = ''abcde''" by simp
  note t = generate_file_hash_chunk_independent [OF c m]
  have t1: "generate_file_hash transcript_hasher [(''v.mp4'', ''abcde'')] ''v.mp4''
     = Inr (sha256_hex transcript_hasher ''abcde'')"
    using t by (rule conjunct1)
  have t2: "h_hexdigest transcript_hasher
     (foldl (h_update transcript_hasher) (h_new transcript_hasher) [''ab'', [], ''cde''])
     = sha256_hex transcript_hasher ''abcde''"
    using t [THEN conjunct2, THEN spec, THEN mp, OF k] .
  show ?thesis
    by (intro conjI) (rule c, rule m, rule t1, rule k, rule t2)
qed

subsection \<open>Publishing one file\<close>

lemma refusing_get:
  "get_upload_url transcript_hasher refusing_network ''tok'' ''v.mp4'' one_file_world =
     (Inr \<lparr>upload_url = JStr ''https://bucket/slot'', hash = JStr ''h''\<rparr>,
      \<lparr>files = [(''v.mp4'', ''abcde'')], calls = 1\<rparr>)"
  by (simp add: get_upload_url_def generate_file_hash_def os_path_getsize_def send_def tick_def
      refusing_network_def upload_url_request_def raise_for_status_def response_json_def
      one_file_world_def)

lemma refusing_put:
  "upload_video refusing_network ''v.mp4'' (JStr ''https://bucket/slot'')
      \<lparr>files = [(''v.mp4'', ''abcde'')], calls = 1\<rparr> =
     (Inr False, \<lparr>files = [(''v.mp4'', ''abcde'')], calls = 2\<rparr>)"
  by (simp add: upload_video_def send_def tick_def refusing_network_def raise_for_status_def)

text \<open>
  C1. Publishing is atomic on transfer failure: whenever the slot is granted and the
  transfer step \<^verbatim>\<open>upload_video\<close> does not return \<^verbatim>\<open>True\<close> (it returns \<^verbatim>\<open>False\<close> or
  raises), \<^verbatim>\<open>upload_video_to_socialverse\<close> makes exactly the calls \<^verbatim>\<open>get_upload_url\<close>
  and \<^verbatim>\<open>upload_video\<close>, never \<^verbatim>\<open>create_post\<close>, and raises instead of returning a post.
\<close>

theorem publish_atomic_on_transfer_failure:
  assumes "get_upload_url H net flic_token file_path w = (Inr upload_info, w1)"
    and "fst (upload_video net file_path (upload_url upload_info) w1) \<noteq> Inr True"
  shows "\<exists>e w2. upload_video_to_socialverse H net flic_token file_path title category_id w =
           ([Call_get_upload_url file_path, Call_upload_video file_path (upload_url upload_info)],
            Inl e, w2)"
proof (cases "upload_video net file_path (upload_url upload_info) w1")
  case (Pair r w2)
  show ?thesis
  proof (cases r)
    case (Inl e)
    with Pair assms(1) show ?thesis
      by (simp add: upload_video_to_socialverse_def)
  next
    case (Inr b)
    with Pair assms(2) have "b = False" by simp
    with Inr Pair assms(1) show ?thesis
      by (simp add: upload_video_to_socialverse_def)
  qed
qed

theorem publish_atomic_on_transfer_failure_witness:
  "get_upload_url transcript_hasher refusing_network ''tok'' ''v.mp4'' one_file_world =
     (Inr \<lparr>upload_url = JStr ''https://bucket/slot'', hash = JStr ''h''\<rparr>,
      \<lparr>files = [(''v.mp4'', ''abcde'')], calls = 1\<rparr>) \<and>
   fst (upload_video refusing_network ''v.mp4''
         (upload_url \<lparr>upload_url = JStr ''https://bucket/slot'', hash = JStr ''h''\<rparr>)
         \<lparr>files = [(''v.mp4'', ''abcde'')], calls = 1\<rparr>) \<noteq> Inr True \<and>
   (\<exists>e w2. upload_video_to_socialverse transcript_hasher refusing_network ''tok'' ''v.mp4''
              ''Instagram Reel: sunset'' 25 one_file_world =
           ([Call_get_upload_url ''v.mp4'',
             Call_upload_video ''v.mp4''
               (upload_url \<lparr>upload_url = JStr ''https://bucket/slot'', hash = JStr ''h''\<rparr>)],
            Inl e, w2))"
proof -
  have g: "get_upload_url transcript_hasher refusing_network ''tok'' ''v.mp4'' one_file_world =
     (Inr \<lparr>upload_url = JStr ''https://bucket/slot'', hash = JStr ''h''\<rparr>,
      \<lparr>files = [(''v.mp4'', ''abcde'')], calls = 1\<rparr>)"
    by (rule refusing_get)
  have u: "fst (upload_video refusing_network ''v.mp4''
         (upload_url \<lparr>upload_url = JStr ''https://bucket/slot'', hash = JStr ''h''\<rparr>)
         \<lparr>files = [(''v.mp4'', ''abcde'')], calls = 1\<rparr>) \<noteq> Inr True"
    using refusing_put by simp
  note t = publish_atomic_on_transfer_failure [OF g u, of "''Instagram Reel: sunset''" 25]
  show ?thesis
    by (intro conjI) (rule g, rule u, rule t)
qed

lemma upload_result_shape:
  "(\<exists>e. fst (snd (upload_video_to_socialverse H net tok p title cat w)) = Inl (except_handler e))
   \<or> (\<exists>post. fst (snd (upload_video_to_socialverse H net tok p title cat w)) = Inr post)"
  by (auto simp add: upload_video_to_socialverse_def split: prod.splits sum.splits)

lemma except_handler_cases:
  "has_response_attr (except_handler e) \<or> except_handler e = AttributeError ''response''"
  by (simp add: except_handler_def)

text \<open>
  C9. When the transfer step returns \<^verbatim>\<open>False\<close>, the exception that leaves
  \<^verbatim>\<open>upload_video_to_socialverse\<close> is the \<^verbatim>\<open>AttributeError\<close> raised by the handler's
  access to \<^verbatim>\<open>e.response\<close>, not the \<^verbatim>\<open>ValueError\<close>. More generally every exception
  that leaves the function either has a \<^verbatim>\<open>response\<close> attribute or is that
  \<^verbatim>\<open>AttributeError\<close>: the handler replaces every exception without the attribute.
\<close>

theorem upload_failure_replaced_by_AttributeError:
  "(get_upload_url H net flic_token file_path w = (Inr upload_info, w1) \<and>
    upload_video net file_path (upload_url upload_info) w1 = (Inr False, w2) \<longrightarrow>
      fst (snd (upload_video_to_socialverse H net flic_token file_path title category_id w))
        = Inl (AttributeError ''response'')) \<and>
   (\<forall>e. fst (snd (upload_video_to_socialverse H net flic_token file_path title category_id w))
          = Inl e \<longrightarrow> has_response_attr e \<or> e = AttributeError ''response'') \<and>
   (\<forall>e. \<not> has_response_attr e \<longrightarrow> except_handler e = AttributeError ''response'')"
proof (intro conjI allI impI)
  assume "get_upload_url H net flic_token file_path w = (Inr upload_info, w1) \<and>
    upload_video net file_path (upload_url upload_info) w1 = (Inr False, w2)"
  then show "fst (snd (upload_video_to_socialverse H net flic_token file_path title category_id w))
        = Inl (AttributeError ''response'')"
    by (simp add: upload_video_to_socialverse_def except_handler_def)
next
  fix e
  assume a: "fst (snd (upload_video_to_socialverse H net flic_token file_path title category_id w))
          = Inl e"
  from upload_result_shape [of H net flic_token file_path title category_id w] a
  obtain e' where "e = except_handler e'" by auto
  then show "has_response_attr e \<or> e = AttributeError ''response''"
    using except_handler_cases [of e'] by simp
next
  fix e assume "\<not> has_response_attr e"
  then show "except_handler e = AttributeError ''response''"
    by (simp add: except_handler_def)
qed

theorem upload_failure_replaced_by_AttributeError_witness:
  "get_upload_url transcript_hasher timeout_network ''tok'' ''v.mp4'' one_file_world =
     (Inr \<lparr>upload_url = JStr ''https://bucket/slot'', hash = JStr ''h''\<rparr>,
      \<lparr>files = [(''v.mp4'', ''abcde'')], calls = 1\<rparr>) \<and>
   upload_video timeout_network ''v.mp4''
         (upload_url \<lparr>upload_url = JStr ''https://bucket/slot'', hash = JStr ''h''\<rparr>)
         \<lparr>files = [(''v.mp4'', ''abcde'')], calls = 1\<rparr> =
     (Inr False, \<lparr>files = [(''v.mp4'', ''abcde'')], calls = 2\<rparr>) \<and>
   fst (snd (upload_video_to_socialverse transcript_hasher timeout_network ''tok'' ''v.mp4''
              ''Instagram Reel: sunset'' 25 one_file_world)) = Inl (AttributeError ''response'')"
proof -
  have g: "get_upload_url transcript_hasher timeout_network ''tok'' ''v.mp4'' one_file_world =
     (Inr \<lparr>upload_url = JStr ''https://bucket/slot'', hash = JStr ''h''\<rparr>,
      \<lparr>files = [(''v.mp4'', ''abcde'')], calls = 1\<rparr>)"
    by (simp add: get_upload_url_def generate_file_hash_def os_path_getsize_def send_def tick_def
      timeout_network_def upload_url_request_def raise_for_status_def response_json_def
      one_file_world_def)
  have u: "upload_video timeout_network ''v.mp4''
         (upload_url \<lparr>upload_url = JStr ''https://bucket/slot'', hash = JStr ''h''\<rparr>)
         \<lparr>files = [(''v.mp4'', ''abcde'')], calls = 1\<rparr> =
     (Inr False, \<lparr>files = [(''v.mp4'', ''abcde'')], calls = 2\<rparr>)"
    by (simp add: upload_video_def send_def tick_def timeout_network_def)
  note t = upload_failure_replaced_by_AttributeError
    [of transcript_hasher timeout_network "''tok''" "''v.mp4''" one_file_world _ _ _
        "''Instagram Reel: sunset''" 25, THEN conjunct1, rule_format, OF conjI, OF g u]
  show ?thesis
    by (intro conjI) (rule g, rule u, rule t)
qed

subsection \<open>Negotiating the upload slot\<close>

text \<open>
  C7, as stated, fails: \<^verbatim>\<open>get_upload_url\<close> returns a result for a malformed payload (a
  JSON object without the keys \<^verbatim>\<open>url\<close> and \<^verbatim>\<open>hash\<close> gives a result whose fields are
  \<^verbatim>\<open>None\<close>) and for a response outside 2xx that is not a client or server error (status
  300 with a JSON object).
\<close>

theorem get_upload_url_returns_on_bad_answers:
  "fst (get_upload_url transcript_hasher empty_object_network ''tok'' ''v.mp4'' one_file_world)
     = Inr \<lparr>upload_url = JNull, hash = JNull\<rparr> \<and>
   fst (get_upload_url transcript_hasher multiple_choices_network ''tok'' ''v.mp4'' one_file_world)
     = Inr \<lparr>upload_url = JStr ''https://bucket/slot'', hash = JStr ''h''\<rparr>"
  by (simp add: get_upload_url_def generate_file_hash_def os_path_getsize_def send_def tick_def
      empty_object_network_def multiple_choices_network_def upload_url_request_def
      raise_for_status_def response_json_def one_file_world_def)

text \<open>
  C7, amended. \<^verbatim>\<open>get_upload_url\<close> raises, rather than returning a result, whenever the
  answer to its request is rejected: the client raises, the status is between 400 and
  599, the body is not JSON, or the JSON document is not an object.
\<close>

theorem get_upload_url_raises:
  assumes "generate_file_hash H (files w) file_path = Inr file_hash"
    and "os_path_getsize (files w) file_path = Inr file_size"
    and "rejected_answer (net (calls w) (upload_url_request flic_token file_hash file_size))"
  shows "\<exists>e. fst (get_upload_url H net flic_token file_path w) = Inl e"
proof (cases "net (calls w) (upload_url_request flic_token file_hash file_size)")
  case (Inl e)
  with assms(1,2) show ?thesis by (simp add: get_upload_url_def send_def)
next
  case (Inr r)
  show ?thesis
  proof (cases "400 \<le> status_code r \<and> status_code r < 600")
    case True
    with Inr assms(1,2) show ?thesis
      by (simp add: get_upload_url_def send_def raise_for_status_def)
  next
    case False
    with Inr assms(3) have p: "case payload r of None \<Rightarrow> True | Some j \<Rightarrow> \<not> is_dict j"
      by (simp add: rejected_answer_def)
    show ?thesis
    proof (cases "payload r")
      case None
      with False Inr assms(1,2) show ?thesis
        by (simp add: get_upload_url_def send_def raise_for_status_def response_json_def)
    next
      case (Some j)
      with p have "\<not> is_dict j" by simp
      then have "py_get j ''url'' = Inl (AttributeError ''get'')" by (cases j) simp_all
      with Some False Inr assms(1,2) show ?thesis
        by (simp add: get_upload_url_def send_def raise_for_status_def response_json_def)
    qed
  qed
qed

theorem get_upload_url_raises_witness:
  "generate_file_hash transcript_hasher (files one_file_world) ''v.mp4'' = Inr ''abcde'' \<and>
   os_path_getsize (files one_file_world) ''v.mp4'' = Inr 5 \<and>
   rejected_answer (server_error_network (calls one_file_world)
      (upload_url_request ''tok'' ''abcde'' 5)) \<and>
   (\<exists>e. fst (get_upload_url transcript_hasher server_error_network ''tok'' ''v.mp4''
              one_file_world) = Inl e)"
proof -
  have h: "generate_file_hash transcript_hasher (files one_file_world) ''v.mp4'' = Inr ''abcde''"
    by (simp add: generate_file_hash_def one_file_world_def transcript_hasher_def)
  have s: "os_path_getsize (files one_file_world) ''v.mp4'' = Inr 5"
    by (simp add: os_path_getsize_def one_file_world_def)
  have r: "rejected_answer (server_error_network (calls one_file_world)
      (upload_url_request ''tok'' ''abcde'' 5))"
    by (simp add: rejected_answer_def server_error_network_def)
  note t = get_upload_url_raises [where net = server_error_network, OF h s r]
  show ?thesis
    by (intro conjI) (rule h, rule s, rule r, rule t)
qed

subsection \<open>Fetching the videos\<close>

lemmas os_defs = os_listdir_def entry_name_def os_path_join_def startswith_def endswith_def
  List.map_filter_simps os_rename_def os_path_exists_def os_path_getsize_def

lemma shortcode_AAA: "shortcode_of ''https://www.instagram.com/reel/AAA/'' = Inr (Some ''AAA'')"
  by (simp add: shortcode_of_def startswith_def split_on_def py_index_def)

lemma shortcode_BBB: "shortcode_of ''https://www.instagram.com/reel/BBB/'' = Inr (Some ''BBB'')"
  by (simp add: shortcode_of_def startswith_def split_on_def py_index_def)

lemma fetch_BBB:
  "download_video appending_instaloader ''instagram_videos''
      ''https://www.instagram.com/reel/BBB/'' 2 one_video_world =
     (Some ''instagram_videos/instagram_video_2_BBB.mp4'',
      \<lparr>files = [(''instagram_videos/instagram_video_2_BBB.mp4'', ''video of AAA''),
                (''instagram_videos/BBB_UTC.mp4'', ''video of BBB'')],
       calls = 3\<rparr>)"
  by (simp add: download_video_def shortcode_BBB appending_instaloader_def one_video_world_def
      str_int_def str_nat.simps verify_download_def os_defs Let_def)

text \<open>
  C6. A URL from which no shortcode is extractable never yields a download: when the URL
  does not contain the reel marker, or has fewer than two segments, or its last segment
  but one is empty, \<^verbatim>\<open>download_video\<close> returns \<^verbatim>\<open>None\<close> without asking Instaloader
  and without touching a file, for every collaborator, directory, index and state.
\<close>

theorem download_video_without_shortcode:
  assumes "\<not> str_in ''/reel/'' video_url
           \<or> length (split_on CHR ''/'' video_url) < 2
           \<or> split_on CHR ''/'' video_url ! (length (split_on CHR ''/'' video_url) - 2) = []"
  shows "download_video L download_path video_url index w = (None, w)"
proof (cases "str_in ''/reel/'' video_url")
  case False
  then show ?thesis by (simp add: download_video_def shortcode_of_def)
next
  case True
  show ?thesis
  proof (cases "length (split_on CHR ''/'' video_url) < 2")
    case short: True
    then have "py_index (split_on CHR ''/'' video_url) (- 2) = Inl IndexError"
      by (simp add: py_index_def)
    with True show ?thesis by (simp add: download_video_def shortcode_of_def)
  next
    case long: False
    with True assms
    have e: "split_on CHR ''/'' video_url ! (length (split_on CHR ''/'' video_url) - 2) = []"
      by simp
    from long have "nat (int (length (split_on CHR ''/'' video_url)) + - 2)
        = length (split_on CHR ''/'' video_url) - 2" by simp
    with long e have "py_index (split_on CHR ''/'' video_url) (- 2) = Inr []"
      by (simp add: py_index_def)
    with True show ?thesis by (simp add: download_video_def shortcode_of_def)
  qed
qed

theorem download_video_without_shortcode_witness:
  "str_in ''/reel/'' ''https://www.instagram.com/reel/AAA//'' \<and>
   split_on CHR ''/'' ''https://www.instagram.com/reel/AAA//'' !
     (length (split_on CHR ''/'' ''https://www.instagram.com/reel/AAA//'') - 2) = [] \<and>
   download_video appending_instaloader ''instagram_videos''
      ''https://www.instagram.com/reel/AAA//'' 1 empty_world = (None, empty_world)"
proof -
  have m: "str_in ''/reel/'' ''https://www.instagram.com/reel/AAA//''"
    by (simp add: startswith_def)
  have e: "split_on CHR ''/'' ''https://www.instagram.com/reel/AAA//'' !
     (length (split_on CHR ''/'' ''https://www.instagram.com/reel/AAA//'') - 2) = []"
    by (simp add: split_on_def)
  note t = download_video_without_shortcode [OF disjI2 [OF disjI2 [OF e]],
      of appending_instaloader "''instagram_videos''" 1 empty_world]
  show ?thesis
    by (intro conjI) (rule m, rule e, rule t)
qed

lemma entry_name_join:
  assumes "entry_name d p = Some name"
  shows "os_path_join d name = p"
proof -
  define pre where "pre = (if d = [] \<or> last d = CHR ''/'' then d else d @ ''/'')"
  have pre: "os_path_join d [] = pre"
    by (simp add: os_path_join_def startswith_def pre_def)
  from assms have s: "take (length pre) p = pre" and n: "name = drop (length pre) p"
    and ne: "name \<noteq> []" and sl: "CHR ''/'' \<notin> set name"
    by (auto simp add: entry_name_def pre Let_def startswith_def split: if_splits)
  from s n have p: "p = pre @ name" by (metis append_take_drop_id)
  from ne sl have "\<not> startswith name ''/''"
    by (cases name) (auto simp add: startswith_def)
  then have "os_path_join d name = pre @ name"
    by (simp add: os_path_join_def pre_def)
  with p show ?thesis by simp
qed

lemma listed_file_exists:
  assumes "os_listdir fs d = Inr listing" and "name \<in> set listing"
  shows "os_path_exists fs (os_path_join d name)"
proof -
  from assms have "name \<in> set (List.map_filter (\<lambda>(p, content). entry_name d p) fs)"
    by (auto simp add: os_listdir_def split: if_splits)
  then obtain p content where m: "(p, content) \<in> set fs" and e: "entry_name d p = Some name"
    by (auto simp add: List.map_filter_def)
  from e have "os_path_join d name = p" by (rule entry_name_join)
  moreover from m have "map_of fs p \<noteq> None"
    by (metis map_of_eq_None_iff image_eqI fst_conv)
  ultimately show ?thesis by (simp add: os_path_exists_def)
qed

lemma map_of_renamed:
  assumes "map_of fs src = Some content" and "src \<noteq> dst"
  shows "map_of (map (\<lambda>(p, content). if p = src then (dst, content) else (p, content))
                  (filter (\<lambda>(p, content). p \<noteq> dst) fs)) dst = Some content"
  using assms by (induction fs) (auto split: if_splits)

lemma os_rename_content:
  assumes "map_of fs src = Some content"
  shows "\<exists>fs2. os_rename fs src dst = Inr fs2 \<and> map_of fs2 dst = Some content"
proof (cases "src = dst")
  case True
  with assms show ?thesis by (simp add: os_rename_def os_path_exists_def)
next
  case False
  with assms map_of_renamed [OF assms False] show ?thesis
    by (simp add: os_rename_def os_path_exists_def)
qed

lemma find_mp4_listed:
  "find P listing = Some filename \<Longrightarrow> filename \<in> set listing"
  by (auto simp add: find_Some_iff)

lemma first_mp4_renamed:
  assumes "shortcode_of video_url = Inr (Some shortcode)" and "shortcode \<noteq> []"
    and "L (calls w) shortcode (files w) = (None, fs1)"
    and "os_listdir fs1 download_path = Inr listing"
    and "find (\<lambda>filename. endswith filename ''.mp4'') listing = Some filename"
  shows "\<exists>content fs2.
           map_of fs1 (os_path_join download_path filename) = Some content \<and>
           os_rename fs1 (os_path_join download_path filename)
             (os_path_join download_path
                (''instagram_video_'' @ str_int index @ ''_'' @ shortcode @ ''.mp4'')) = Inr fs2 \<and>
           map_of fs2 (os_path_join download_path
                (''instagram_video_'' @ str_int index @ ''_'' @ shortcode @ ''.mp4''))
             = Some content \<and>
           download_video L download_path video_url index w =
             (if content \<noteq> []
              then Some (os_path_join download_path
                     (''instagram_video_'' @ str_int index @ ''_'' @ shortcode @ ''.mp4''))
              else None,
              \<lparr>files = fs2, calls = Suc (calls w)\<rparr>)"
proof -
  let ?src = "os_path_join download_path filename"
  let ?dst = "os_path_join download_path
                (''instagram_video_'' @ str_int index @ ''_'' @ shortcode @ ''.mp4'')"
  from assms(5) have "filename \<in> set listing" by (rule find_mp4_listed)
  with assms(4) have "os_path_exists fs1 ?src" by (rule listed_file_exists)
  then obtain content where c: "map_of fs1 ?src = Some content"
    by (auto simp add: os_path_exists_def)
  from os_rename_content [OF c, of ?dst]
  obtain fs2 where r: "os_rename fs1 ?src ?dst = Inr fs2" and m: "map_of fs2 ?dst = Some content"
    by blast
  have v: "verify_download ?dst \<lparr>files = fs2, calls = Suc (calls w)\<rparr> =
      (if content \<noteq> [] then Some ?dst else None, \<lparr>files = fs2, calls = Suc (calls w)\<rparr>)"
    using m by (simp add: verify_download_def os_path_exists_def os_path_getsize_def)
  have "download_video L download_path video_url index w =
      verify_download ?dst \<lparr>files = fs2, calls = Suc (calls w)\<rparr>"
    using assms r by (simp add: download_video_def Let_def)
  with v c r m show ?thesis by simp
qed

text \<open>
  C10. After the download step, \<^verbatim>\<open>download_video\<close> renames the first name ending in
  \<^verbatim>\<open>.mp4\<close> of the listing of the download directory to the target name, whatever wrote
  that file: the returned path holds the content which that file had. Hence there is a
  state of the directory, holding the video of an earlier fetch, in which the path
  returned for one post holds the video of another.
\<close>

theorem download_video_renames_first_mp4:
  "(\<forall>L download_path video_url index (w::world) shortcode fs1 listing filename.
      shortcode_of video_url = Inr (Some shortcode) \<and> shortcode \<noteq> [] \<and>
      L (calls w) shortcode (files w) = (None, fs1) \<and>
      os_listdir fs1 download_path = Inr listing \<and>
      find (\<lambda>filename. endswith filename ''.mp4'') listing = Some filename \<longrightarrow>
      (\<exists>content fs2.
         map_of fs1 (os_path_join download_path filename) = Some content \<and>
         os_rename fs1 (os_path_join download_path filename)
           (os_path_join download_path
              (''instagram_video_'' @ str_int index @ ''_'' @ shortcode @ ''.mp4'')) = Inr fs2 \<and>
         map_of fs2 (os_path_join download_path
              (''instagram_video_'' @ str_int index @ ''_'' @ shortcode @ ''.mp4''))
           = Some content \<and>
         download_video L download_path video_url index w =
           (if content \<noteq> []
            then Some (os_path_join download_path
                   (''instagram_video_'' @ str_int index @ ''_'' @ shortcode @ ''.mp4''))
            else None,
            \<lparr>files = fs2, calls = Suc (calls w)\<rparr>))) \<and>
   (\<exists>w local_path w'.
      download_video appending_instaloader ''instagram_videos''
        ''https://www.instagram.com/reel/BBB/'' 2 w = (Some local_path, w') \<and>
      map_of (files w') local_path = Some ''video of AAA'')"
proof (intro conjI allI impI)
  fix L :: instaloader and download_path video_url index and w :: world and shortcode fs1 listing filename
  assume "shortcode_of video_url = Inr (Some shortcode) \<and> shortcode \<noteq> [] \<and>
      L (calls w) shortcode (files w) = (None, fs1) \<and>
      os_listdir fs1 download_path = Inr listing \<and>
      find (\<lambda>filename. endswith filename ''.mp4'') listing = Some filename"
  then have h: "shortcode_of video_url = Inr (Some shortcode)" "shortcode \<noteq> []"
      "L (calls w) shortcode (files w) = (None, fs1)"
      "os_listdir fs1 download_path = Inr listing"
      "find (\<lambda>filename. endswith filename ''.mp4'') listing = Some filename"
    by simp_all
  show "\<exists>content fs2.
         map_of fs1 (os_path_join download_path filename) = Some content \<and>
         os_rename fs1 (os_path_join download_path filename)
           (os_path_join download_path
              (''instagram_video_'' @ str_int index @ ''_'' @ shortcode @ ''.mp4'')) = Inr fs2 \<and>
         map_of fs2 (os_path_join download_path
              (''instagram_video_'' @ str_int index @ ''_'' @ shortcode @ ''.mp4''))
           = Some content \<and>
         download_video L download_path video_url index w =
           (if content \<noteq> []
            then Some (os_path_join download_path
                   (''instagram_video_'' @ str_int index @ ''_'' @ shortcode @ ''.mp4''))
            else None,
            \<lparr>files = fs2, calls = Suc (calls w)\<rparr>)"
    by (rule first_mp4_renamed [where L = L and w = w, OF h])
next
  have "map_of [(''instagram_videos/instagram_video_2_BBB.mp4'', ''video of AAA''),
                (''instagram_videos/BBB_UTC.mp4'', ''video of BBB'')]
          ''instagram_videos/instagram_video_2_BBB.mp4'' = Some ''video of AAA''"
    by simp
  with fetch_BBB show "\<exists>w local_path w'.
      download_video appending_instaloader ''instagram_videos''
        ''https://www.instagram.com/reel/BBB/'' 2 w = (Some local_path, w') \<and>
      map_of (files w') local_path = Some ''video of AAA''"
    by (intro exI [of _ one_video_world] exI [of _ "''instagram_videos/instagram_video_2_BBB.mp4''"]
        exI [of _ "\<lparr>files = [(''instagram_videos/instagram_video_2_BBB.mp4'', ''video of AAA''),
                (''instagram_videos/BBB_UTC.mp4'', ''video of BBB'')], calls = 3\<rparr>"]) simp
qed

theorem download_video_renames_first_mp4_witness:
  "shortcode_of ''https://www.instagram.com/reel/BBB/'' = Inr (Some ''BBB'') \<and> ''BBB'' \<noteq> [] \<and>
   appending_instaloader (calls one_video_world) ''BBB'' (files one_video_world) =
     (None, [(''instagram_videos/instagram_video_1_AAA.mp4'', ''video of AAA''),
             (''instagram_videos/BBB_UTC.mp4'', ''video of BBB'')]) \<and>
   os_listdir [(''instagram_videos/instagram_video_1_AAA.mp4'', ''video of AAA''),
               (''instagram_videos/BBB_UTC.mp4'', ''video of BBB'')] ''instagram_videos'' =
     Inr [''instagram_video_1_AAA.mp4'', ''BBB_UTC.mp4''] \<and>
   find (\<lambda>filename. endswith filename ''.mp4'') [''instagram_video_1_AAA.mp4'', ''BBB_UTC.mp4'']
     = Some ''instagram_video_1_AAA.mp4'' \<and>
   (\<exists>fs2. download_video appending_instaloader ''instagram_videos''
            ''https://www.instagram.com/reel/BBB/'' 2 one_video_world =
          (Some ''instagram_videos/instagram_video_2_BBB.mp4'', \<lparr>files = fs2, calls = 3\<rparr>) \<and>
        map_of fs2 ''instagram_videos/instagram_video_2_BBB.mp4'' = Some ''video of AAA'')"
proof -
  let ?fs1 = "[(''instagram_videos/instagram_video_1_AAA.mp4'', ''video of AAA''),
               (''instagram_videos/BBB_UTC.mp4'', ''video of BBB'')]"
  have h1: "shortcode_of ''https://www.instagram.com/reel/BBB/'' = Inr (Some ''BBB'')"
    by (rule shortcode_BBB)
  have h2: "''BBB'' \<noteq> []" by simp
  have h3: "appending_instaloader (calls one_video_world) ''BBB'' (files one_video_world) =
     (None, ?fs1)"
    by (simp add: appending_instaloader_def one_video_world_def)
  have h4: "os_listdir ?fs1 ''instagram_videos'' =
     Inr [''instagram_video_1_AAA.mp4'', ''BBB_UTC.mp4'']"
    by (simp add: os_defs)
  have h5: "find (\<lambda>filename. endswith filename ''.mp4'')
      [''instagram_video_1_AAA.mp4'', ''BBB_UTC.mp4''] = Some ''instagram_video_1_AAA.mp4''"
    by (simp add: endswith_def)
  note t = download_video_renames_first_mp4 [THEN conjunct1, rule_format,
      where L = appending_instaloader and w = one_video_world and index = 2
        and download_path = "''instagram_videos''",
      OF conjI [OF h1 conjI [OF h2 conjI [OF h3 conjI [OF h4 h5]]]]]
  have p: "os_path_join ''instagram_videos''
              (''instagram_video_'' @ str_int 2 @ ''_'' @ ''BBB'' @ ''.mp4'')
            = ''instagram_videos/instagram_video_2_BBB.mp4''"
    by (simp add: os_path_join_def startswith_def str_int_def str_nat.simps)
  have q: "os_path_join ''instagram_videos'' ''instagram_video_1_AAA.mp4''
            = ''instagram_videos/instagram_video_1_AAA.mp4''"
    by (simp add: os_path_join_def startswith_def)
  have s: "Suc (calls one_video_world) = 3"
    by (simp add: one_video_world_def)
  from t have e: "\<exists>fs2. download_video appending_instaloader ''instagram_videos''
            ''https://www.instagram.com/reel/BBB/'' 2 one_video_world =
          (Some ''instagram_videos/instagram_video_2_BBB.mp4'', \<lparr>files = fs2, calls = 3\<rparr>) \<and>
        map_of fs2 ''instagram_videos/instagram_video_2_BBB.mp4'' = Some ''video of AAA''"
    unfolding p q s by auto
  show ?thesis
    by (intro conjI) (rule h1, rule h2, rule h3, rule h4, rule h5, rule e)
qed

text \<open>
  C5 fails on the code: with two discovered links, the second fetch renames the file of
  the first one, and \<^verbatim>\<open>download_videos\<close> returns a path at which no file exists when
  it returns.
\<close>

theorem download_videos_returns_missing_path:
  "download_videos two_reels_browser appending_instaloader ''instagram_videos'' ''cats'' 5
      empty_world =
     ([''instagram_videos/instagram_video_1_AAA.mp4'',
       ''instagram_videos/instagram_video_2_BBB.mp4''],
      \<lparr>files = [(''instagram_videos/instagram_video_2_BBB.mp4'', ''video of AAA''),
                (''instagram_videos/BBB_UTC.mp4'', ''video of BBB'')],
       calls = 3\<rparr>) \<and>
   \<not> os_path_exists
       [(''instagram_videos/instagram_video_2_BBB.mp4'', ''video of AAA''),
        (''instagram_videos/BBB_UTC.mp4'', ''video of BBB'')]
       ''instagram_videos/instagram_video_1_AAA.mp4''"
  by (simp add: download_videos_def find_video_links_def two_reels_browser_def tick_def
      empty_world_def enumerate_eq_zip upt_rec startswith_def
      download_video_def shortcode_AAA shortcode_BBB appending_instaloader_def
      str_int_def str_nat.simps verify_download_def os_defs Let_def)

subsection \<open>The retry loop\<close>

lemma retry_loop_attempts_le:
  "length (filter is_attempt (fst (retry_loop attempt_download attempts downloaded_files w)))
     \<le> length attempts"
proof (induction attempts arbitrary: downloaded_files w)
  case Nil
  show ?case by simp
next
  case (Cons attempt attempts)
  obtain r w1 where a: "attempt_download w = (r, w1)" by (cases "attempt_download w")
  show ?case
  proof (cases r)
    case (Inl e)
    obtain evs d w2 where
      rest: "retry_loop attempt_download attempts downloaded_files w1 = (evs, d, w2)"
      by (cases "retry_loop attempt_download attempts downloaded_files w1")
    from Cons [of downloaded_files w1] rest a Inl show ?thesis by simp
  next
    case (Inr new_files)
    obtain evs d w2 where
      rest: "retry_loop attempt_download attempts new_files w1 = (evs, d, w2)"
      by (cases "retry_loop attempt_download attempts new_files w1")
    from Cons [of new_files w1] rest a Inr show ?thesis by auto
  qed
qed

lemma retry_loop_stops:
  "fst (retry_loop attempt_download attempts downloaded_files w)
      = pre @ Attempt k (Inr new_files) # post \<Longrightarrow> new_files \<noteq> [] \<Longrightarrow>
   post = [] \<and> fst (snd (retry_loop attempt_download attempts downloaded_files w)) = new_files"
proof (induction attempts arbitrary: downloaded_files w pre)
  case Nil
  then show ?case by simp
next
  case (Cons attempt attempts)
  obtain r w1 where a: "attempt_download w = (r, w1)" by (cases "attempt_download w")
  show ?case
  proof (cases r)
    case (Inl e)
    obtain evs d w2 where
      rest: "retry_loop attempt_download attempts downloaded_files w1 = (evs, d, w2)"
      by (cases "retry_loop attempt_download attempts downloaded_files w1")
    from Cons.prems(1) a Inl rest
    have "Attempt attempt (Inl e) # Sleep 3 # evs = pre @ Attempt k (Inr new_files) # post"
      by simp
    then obtain pre' where "evs = pre' @ Attempt k (Inr new_files) # post"
      by (cases pre; cases "tl pre") auto
    with rest have "fst (retry_loop attempt_download attempts downloaded_files w1)
        = pre' @ Attempt k (Inr new_files) # post" by simp
    from Cons.IH [OF this Cons.prems(2)] a Inl rest show ?thesis by simp
  next
    case (Inr found)
    show ?thesis
    proof (cases "found = []")
      case False
      with Cons.prems(1) a Inr
      have "[Attempt attempt (Inr found)] = pre @ Attempt k (Inr new_files) # post" by simp
      then have "pre = [] \<and> post = [] \<and> found = new_files"
        by (cases pre) auto
      with False a Inr show ?thesis by simp
    next
      case True
      obtain evs d w2 where
        rest: "retry_loop attempt_download attempts found w1 = (evs, d, w2)"
        by (cases "retry_loop attempt_download attempts found w1")
      from Cons.prems(1) a Inr True rest
      have "Attempt attempt (Inr []) # evs = pre @ Attempt k (Inr new_files) # post" by simp
      with Cons.prems(2) obtain pre' where "evs = pre' @ Attempt k (Inr new_files) # post"
        by (cases pre) auto
      with rest have "fst (retry_loop attempt_download attempts found w1)
          = pre' @ Attempt k (Inr new_files) # post" by simp
      from Cons.IH [OF this Cons.prems(2)] a Inr True rest show ?thesis by simp
    qed
  qed
qed

lemma upt_3: "[0..<3] = [0, 1, 2]"
  by (simp add: upt_rec)

lemmas download_defs = await_download_videos_def download_videos_def find_video_links_def
  late_browser_def tick_def enumerate_eq_zip upt_rec startswith_def download_video_def
  shortcode_AAA appending_instaloader_def str_int_def str_nat.simps verify_download_def
  os_defs Let_def

lemma late_attempt_0:
  "await_download_videos (late_browser 2) appending_instaloader ''instagram_videos'' ''cats'' 5
     empty_world = (Inr [], \<lparr>files = [], calls = 1\<rparr>)"
  by (simp add: download_defs empty_world_def)

lemma late_attempt_1:
  "await_download_videos (late_browser 2) appending_instaloader ''instagram_videos'' ''cats'' 5
     \<lparr>files = [], calls = 1\<rparr> = (Inr [], \<lparr>files = [], calls = 2\<rparr>)"
  by (simp add: download_defs)

lemma late_attempt_2:
  "await_download_videos (late_browser 2) appending_instaloader ''instagram_videos'' ''cats'' 5
     \<lparr>files = [], calls = 2\<rparr> =
   (Inr [''instagram_videos/instagram_video_1_AAA.mp4''],
    \<lparr>files = [(''instagram_videos/instagram_video_1_AAA.mp4'', ''video of AAA'')], calls = 4\<rparr>)"
  by (simp add: download_defs)

text \<open>
  C4 fails on the code: when the first attempt finds nothing and the second one finds a
  video, the second attempt follows the first without a sleep between them. Only the
  handler of an exception sleeps.
\<close>

theorem retry_without_backoff:
  "retry_loop
     (await_download_videos (late_browser 1) appending_instaloader ''instagram_videos'' ''cats'' 5)
     [0..<3] [] empty_world =
     ([Attempt 0 (Inr []),
       Attempt 1 (Inr [''instagram_videos/instagram_video_1_AAA.mp4''])],
      [''instagram_videos/instagram_video_1_AAA.mp4''],
      \<lparr>files = [(''instagram_videos/instagram_video_1_AAA.mp4'', ''video of AAA'')],
       calls = 3\<rparr>)"
  by (simp add: upt_3 download_defs empty_world_def)

lemma retry_loop_never_sleeps:
  "Sleep n \<notin> set (fst (retry_loop (await_download_videos B L download_path keyword max_videos)
      attempts downloaded_files w))"
proof (induction attempts arbitrary: downloaded_files w)
  case Nil
  show ?case by simp
next
  case (Cons attempt attempts)
  obtain found w1 where
    d: "download_videos B L download_path keyword max_videos w = (found, w1)"
    by (cases "download_videos B L download_path keyword max_videos w")
  obtain evs r w2 where rest:
    "retry_loop (await_download_videos B L download_path keyword max_videos) attempts found w1
       = (evs, r, w2)"
    by (cases "retry_loop (await_download_videos B L download_path keyword max_videos)
       attempts found w1")
  from d have a: "await_download_videos B L download_path keyword max_videos w = (Inr found, w1)"
    by (simp add: await_download_videos_def)
  from Cons [of found w1] rest have "Sleep n \<notin> set evs" by simp
  with a rest show ?case by (cases "found = []") simp_all
qed

subsection \<open>The upload loop\<close>

lemma send_files: "send net rq w = (r, w1) \<Longrightarrow> files w1 = files w"
  by (auto simp add: send_def tick_def)

lemma get_upload_url_files:
  "get_upload_url H net flic_token file_path w = (r, w1) \<Longrightarrow> files w1 = files w"
  by (auto simp add: get_upload_url_def send_def tick_def split: sum.splits prod.splits)

lemma upload_video_files:
  "upload_video net file_path url w = (r, w1) \<Longrightarrow> files w1 = files w"
  by (auto simp add: upload_video_def send_def tick_def
      split: sum.splits prod.splits option.splits if_splits)

lemma create_post_files:
  "create_post net flic_token file_hash title category_id w = (r, w1) \<Longrightarrow> files w1 = files w"
  by (auto simp add: create_post_def send_def tick_def split: sum.splits prod.splits)

lemma await_upload_files:
  "files (snd (await_upload H net flic_token keyword video_path w)) = files w"
proof -
  obtain steps r w3 where u: "upload_video_to_socialverse H net flic_token video_path
      (''Instagram Reel: '' @ keyword) 25 w = (steps, r, w3)"
    by (cases "upload_video_to_socialverse H net flic_token video_path
      (''Instagram Reel: '' @ keyword) 25 w") auto
  obtain g w1 where g: "get_upload_url H net flic_token video_path w = (g, w1)"
    by (cases "get_upload_url H net flic_token video_path w")
  note f1 = get_upload_url_files [OF g]
  have "files w3 = files w"
  proof (cases g)
    case (Inl e)
    with u g f1 show ?thesis by (simp add: upload_video_to_socialverse_def)
  next
    case (Inr upload_info)
    obtain v w2 where v: "upload_video net video_path (upload_url upload_info) w1 = (v, w2)"
      by (cases "upload_video net video_path (upload_url upload_info) w1")
    note f2 = upload_video_files [OF v]
    show ?thesis
    proof (cases v)
      case (Inl e)
      with u g Inr v f1 f2 show ?thesis by (simp add: upload_video_to_socialverse_def)
    next
      case ok: (Inr upload_success)
      show ?thesis
      proof (cases upload_success)
        case False
        with u g Inr v ok f1 f2 show ?thesis by (simp add: upload_video_to_socialverse_def)
      next
        case True
        obtain c w3' where c: "create_post net flic_token (hash upload_info)
            (''Instagram Reel: '' @ keyword) 25 w2 = (c, w3')"
          by (cases "create_post net flic_token (hash upload_info)
            (''Instagram Reel: '' @ keyword) 25 w2")
        note f3 = create_post_files [OF c]
        from u g Inr v ok True c f1 f2 f3 show ?thesis
          by (cases c) (simp_all add: upload_video_to_socialverse_def)
      qed
    qed
  qed
  with u show ?thesis by (simp add: await_upload_def)
qed

lemma map_of_filter_other:
  "q \<noteq> p \<Longrightarrow> map_of (filter (\<lambda>(k, content). k \<noteq> p) fs) q = map_of fs q"
  by (induction fs) auto

lemma exists_after_remove:
  "os_remove fs p = Inr fs1 \<Longrightarrow> os_path_exists fs q \<Longrightarrow> q \<noteq> p \<Longrightarrow> os_path_exists fs1 q"
  by (auto simp add: os_remove_def os_path_exists_def map_of_filter_other split: if_splits)

lemma upload_loop_deleted:
  assumes pres: "\<And>p w. files (snd (publish p w)) = files w"
  shows "os_path_exists (files w) q \<Longrightarrow>
         \<not> os_path_exists (files (snd (upload_loop publish ps w))) q \<Longrightarrow>
         \<exists>post. Publish q (Inr post) \<in> set (fst (upload_loop publish ps w))"
proof (induction ps arbitrary: w)
  case Nil
  then show ?case by simp
next
  case (Cons p ps)
  obtain r w1 where pb: "publish p w = (r, w1)" by (cases "publish p w")
  with pres [of p w] have f: "files w1 = files w" by simp
  show ?case
  proof (cases r)
    case (Inl e)
    with pb f Cons.prems show ?thesis by simp
  next
    case (Inr post)
    show ?thesis
    proof (cases "os_remove (files w1) p")
      case (Inl e)
      with pb Inr f Cons.prems show ?thesis by simp
    next
      case rm: (Inr fs1)
      show ?thesis
      proof (cases "q = p")
        case True
        with pb Inr rm show ?thesis
          by (auto split: sum.splits prod.splits)
      next
        case False
        with rm f Cons.prems(1) have ex: "os_path_exists fs1 q"
          using exists_after_remove [of "files w1" p fs1 q] by simp
        show ?thesis
        proof (cases "py_get post ''id''")
          case (Inl e)
          with pb Inr rm ex Cons.prems(2) show ?thesis by simp
        next
          case got: (Inr post_id)
          obtain evs w2 where rest: "upload_loop publish ps (w1\<lparr>files := fs1\<rparr>) = (evs, w2)"
            by (cases "upload_loop publish ps (w1\<lparr>files := fs1\<rparr>)")
          from pb Inr rm got rest Cons.prems(2) have "\<not> os_path_exists (files w2) q" by simp
          with Cons.IH [of "w1\<lparr>files := fs1\<rparr>"] ex rest
          obtain post' where "Publish q (Inr post') \<in> set evs" by auto
          with pb Inr rm got rest show ?thesis by auto
        qed
      qed
    qed
  qed
qed

lemma upload_loop_failure_last:
  "fst (upload_loop publish ps w) = pre @ Publish q (Inl e) # post \<Longrightarrow> post = []"
proof (induction ps arbitrary: w pre)
  case Nil
  then show ?case by simp
next
  case (Cons p ps)
  obtain r w1 where pb: "publish p w = (r, w1)" by (cases "publish p w")
  show ?case
  proof (cases r)
    case (Inl e')
    with pb Cons.prems have "[Publish p (Inl e')] = pre @ Publish q (Inl e) # post" by simp
    then show ?thesis by (cases pre) auto
  next
    case (Inr post_response)
    show ?thesis
    proof (cases "os_remove (files w1) p")
      case (Inl e')
      with pb Inr Cons.prems
      have "[Publish p (Inr post_response)] = pre @ Publish q (Inl e) # post" by simp
      then show ?thesis by (cases pre) auto
    next
      case rm: (Inr fs1)
      show ?thesis
      proof (cases "py_get post_response ''id''")
        case (Inl e')
        with pb Inr rm Cons.prems
        have "[Publish p (Inr post_response), Remove p] = pre @ Publish q (Inl e) # post"
          by simp
        then show ?thesis by (cases pre; cases "tl pre") auto
      next
        case got: (Inr post_id)
        obtain evs w2 where rest: "upload_loop publish ps (w1\<lparr>files := fs1\<rparr>) = (evs, w2)"
          by (cases "upload_loop publish ps (w1\<lparr>files := fs1\<rparr>)")
        with pb Inr rm got Cons.prems
        have "Publish p (Inr post_response) # Remove p # evs = pre @ Publish q (Inl e) # post"
          by simp
        then obtain pre' where "evs = pre' @ Publish q (Inl e) # post"
          by (cases pre; cases "tl pre") auto
        with rest have "fst (upload_loop publish ps (w1\<lparr>files := fs1\<rparr>))
            = pre' @ Publish q (Inl e) # post" by simp
        then show ?thesis by (rule Cons.IH)
      qed
    qed
  qed
qed

lemmas upload_defs = await_upload_def upload_video_to_socialverse_def get_upload_url_def
  upload_video_def create_post_def generate_file_hash_def os_path_getsize_def send_def tick_def
  put_refused_at_def upload_url_request_def create_post_request_def raise_for_status_def
  response_json_def except_handler_def os_remove_def os_path_exists_def

lemma second_put_refused:
  "upload_loop (await_upload transcript_hasher (put_refused_at 4) main_flic_token ''cats'')
      [''a.mp4'', ''b.mp4''] two_file_world =
     ([Publish ''a.mp4'' (Inr (JObj [(''id'', JNum 7)])), Remove ''a.mp4'',
       Publish ''b.mp4'' (Inl (AttributeError ''response''))],
      \<lparr>files = [(''b.mp4'', ''bbb'')], calls = 5\<rparr>)"
  by (simp add: upload_defs two_file_world_def)

text \<open>
  C2, as stated, fails: a publish failure for one file ends the loop. With two files and a
  network that refuses the transfer of the first one only, the second file is never
  published, although publishing it would succeed.
\<close>

theorem upload_loop_aborts_at_first_failure:
  "upload_loop (await_upload transcript_hasher (put_refused_at 1) main_flic_token ''cats'')
      [''a.mp4'', ''b.mp4''] two_file_world =
     ([Publish ''a.mp4'' (Inl (AttributeError ''response''))],
      \<lparr>files = [(''a.mp4'', ''aaa''), (''b.mp4'', ''bbb'')], calls = 2\<rparr>) \<and>
   fst (await_upload transcript_hasher (put_refused_at 1) main_flic_token ''cats'' ''b.mp4''
          \<lparr>files = [(''a.mp4'', ''aaa''), (''b.mp4'', ''bbb'')], calls = 2\<rparr>)
     = Inr (JObj [(''id'', JNum 7)])"
  by (simp add: upload_defs two_file_world_def)

text \<open>
  C2, amended. Each local file is deleted only if its own publish call has succeeded, and
  the first publish failure ends the loop: no file is published or deleted after it.
\<close>

theorem upload_loop_deletes_only_published:
  "(\<forall>video_path.
      os_path_exists (files w) video_path \<and>
      \<not> os_path_exists
          (files (snd (upload_loop (await_upload H net flic_token keyword) downloaded_files w)))
          video_path \<longrightarrow>
      (\<exists>post_response.
         Publish video_path (Inr post_response)
           \<in> set (fst (upload_loop (await_upload H net flic_token keyword) downloaded_files w))))
   \<and>
   (\<forall>pre video_path e post.
      fst (upload_loop (await_upload H net flic_token keyword) downloaded_files w)
        = pre @ Publish video_path (Inl e) # post \<longrightarrow> post = [])"
proof (intro conjI allI impI)
  fix video_path
  assume a: "os_path_exists (files w) video_path \<and>
      \<not> os_path_exists
          (files (snd (upload_loop (await_upload H net flic_token keyword) downloaded_files w)))
          video_path"
  have pres: "\<And>p w. files (snd (await_upload H net flic_token keyword p w)) = files w"
    by (rule await_upload_files)
  from a show "\<exists>post_response.
         Publish video_path (Inr post_response)
           \<in> set (fst (upload_loop (await_upload H net flic_token keyword) downloaded_files w))"
    using upload_loop_deleted [of "await_upload H net flic_token keyword" w video_path
        downloaded_files, OF pres] by simp
next
  fix pre video_path e post
  assume "fst (upload_loop (await_upload H net flic_token keyword) downloaded_files w)
        = pre @ Publish video_path (Inl e) # post"
  then show "post = []" by (rule upload_loop_failure_last)
qed

theorem upload_loop_deletes_only_published_witness:
  "os_path_exists (files two_file_world) ''a.mp4'' \<and>
   \<not> os_path_exists
       (files (snd (upload_loop
          (await_upload transcript_hasher (put_refused_at 4) main_flic_token ''cats'')
          [''a.mp4'', ''b.mp4''] two_file_world))) ''a.mp4'' \<and>
   (\<exists>post_response.
      Publish ''a.mp4'' (Inr post_response)
        \<in> set (fst (upload_loop
              (await_upload transcript_hasher (put_refused_at 4) main_flic_token ''cats'')
              [''a.mp4'', ''b.mp4''] two_file_world))) \<and>
   fst (upload_loop (await_upload transcript_hasher (put_refused_at 4) main_flic_token ''cats'')
          [''a.mp4'', ''b.mp4''] two_file_world)
     = [Publish ''a.mp4'' (Inr (JObj [(''id'', JNum 7)])), Remove ''a.mp4'']
       @ Publish ''b.mp4'' (Inl (AttributeError ''response'')) # []"
proof -
  let ?run = "upload_loop
     (await_upload transcript_hasher (put_refused_at 4) main_flic_token ''cats'')
     [''a.mp4'', ''b.mp4''] two_file_world"
  have before: "os_path_exists (files two_file_world) ''a.mp4''"
    by (simp add: os_path_exists_def two_file_world_def)
  have after: "\<not> os_path_exists (files (snd ?run)) ''a.mp4''"
    unfolding second_put_refused by (simp add: os_path_exists_def)
  have trace: "fst ?run
     = [Publish ''a.mp4'' (Inr (JObj [(''id'', JNum 7)])), Remove ''a.mp4'']
       @ Publish ''b.mp4'' (Inl (AttributeError ''response'')) # []"
    unfolding second_put_refused by simp
  note t = upload_loop_deletes_only_published [of two_file_world transcript_hasher
      "put_refused_at 4" main_flic_token "''cats''" "[''a.mp4'', ''b.mp4'']"]
  have published: "\<exists>post_response. Publish ''a.mp4'' (Inr post_response) \<in> set (fst ?run)"
    using t [THEN conjunct1, rule_format, OF conjI [OF before after]] .
  have last: "([] :: event list) = []"
    using t [THEN conjunct2, rule_format, OF trace] .
  show ?thesis
    by (intro conjI) (rule before, rule after, rule published, rule trace)
qed

subsection \<open>The attempts of \<^verbatim>\<open>main\<close>\<close>

lemma upload_loop_no_attempt:
  "filter is_attempt (fst (upload_loop publish downloaded_files w)) = []"
proof (induction downloaded_files arbitrary: w)
  case Nil
  show ?case by simp
next
  case (Cons video_path downloaded_files)
  obtain r w1 where pb: "publish video_path w = (r, w1)" by (cases "publish video_path w")
  show ?case
  proof (cases r)
    case (Inl e)
    with pb show ?thesis by simp
  next
    case (Inr post_response)
    show ?thesis
    proof (cases "os_remove (files w1) video_path")
      case (Inl e)
      with pb Inr show ?thesis by simp
    next
      case rm: (Inr fs1)
      show ?thesis
      proof (cases "py_get post_response ''id''")
        case (Inl e)
        with pb Inr rm show ?thesis by simp
      next
        case got: (Inr post_id)
        obtain evs w2 where
          rest: "upload_loop publish downloaded_files (w1\<lparr>files := fs1\<rparr>) = (evs, w2)"
          by (cases "upload_loop publish downloaded_files (w1\<lparr>files := fs1\<rparr>)")
        from Cons [of "w1\<lparr>files := fs1\<rparr>"] rest have "filter is_attempt evs = []" by simp
        with pb Inr rm got rest show ?thesis by simp
      qed
    qed
  qed
qed

lemma main_trace:
  "\<exists>evs2. fst (main B L H net SEARCH_KEYWORD w) =
      fst (retry_loop (await_download_videos B L ''instagram_videos'' SEARCH_KEYWORD 5)
             [0..<3] [] w) @ Close # evs2 \<and>
      filter is_attempt evs2 = []"
proof -
  obtain evs1 downloaded_files w1 where
    r: "retry_loop (await_download_videos B L ''instagram_videos'' SEARCH_KEYWORD 5)
          [0..<3] [] w = (evs1, downloaded_files, w1)"
    by (cases "retry_loop (await_download_videos B L ''instagram_videos'' SEARCH_KEYWORD 5)
          [0..<3] [] w")
  show ?thesis
  proof (cases "downloaded_files = []")
    case True
    with r show ?thesis by (simp add: main_def)
  next
    case False
    obtain evs2 w2 where
      u: "upload_loop (await_upload H net main_flic_token SEARCH_KEYWORD) downloaded_files w1
            = (evs2, w2)"
      by (cases "upload_loop (await_upload H net main_flic_token SEARCH_KEYWORD)
            downloaded_files w1")
    from upload_loop_no_attempt
      [of "await_upload H net main_flic_token SEARCH_KEYWORD" downloaded_files w1] u
    have "filter is_attempt evs2 = []" by simp
    with r u False show ?thesis by (simp add: main_def)
  qed
qed

lemma attempt_in_retry_part:
  assumes "evs1 @ Close # evs2 = pre @ Attempt k r # post"
    and "filter is_attempt evs2 = []"
  shows "\<exists>us. evs1 = pre @ Attempt k r # us \<and> post = us @ Close # evs2"
proof -
  from assms(1) consider
      (left) us where "evs1 = pre @ us" and "us @ Close # evs2 = Attempt k r # post"
    | (right) us where "evs1 @ us = pre" and "Close # evs2 = us @ Attempt k r # post"
    by (auto simp add: append_eq_append_conv2)
  then show ?thesis
  proof cases
    case left
    then show ?thesis by (cases us) auto
  next
    case right
    from right(2) have "filter is_attempt (Close # evs2)
        = filter is_attempt (us @ Attempt k r # post)" by simp
    with assms(2) show ?thesis by simp
  qed
qed

lemma late_download_0:
  "download_videos (late_browser 2) appending_instaloader ''instagram_videos'' ''cats'' 5
     empty_world = ([], \<lparr>files = [], calls = 1\<rparr>)"
  using late_attempt_0 by (simp add: await_download_videos_def split: prod.splits)

lemma late_download_1:
  "download_videos (late_browser 2) appending_instaloader ''instagram_videos'' ''cats'' 5
     \<lparr>files = [], calls = 1\<rparr> = ([], \<lparr>files = [], calls = 2\<rparr>)"
  using late_attempt_1 by (simp add: await_download_videos_def split: prod.splits)

lemma late_download_2:
  "download_videos (late_browser 2) appending_instaloader ''instagram_videos'' ''cats'' 5
     \<lparr>files = [], calls = 2\<rparr> =
   ([''instagram_videos/instagram_video_1_AAA.mp4''],
    \<lparr>files = [(''instagram_videos/instagram_video_1_AAA.mp4'', ''video of AAA'')], calls = 4\<rparr>)"
  using late_attempt_2 by (simp add: await_download_videos_def split: prod.splits)

lemma late_retry:
  "retry_loop
     (await_download_videos (late_browser 2) appending_instaloader ''instagram_videos'' ''cats'' 5)
     [0..<3] [] empty_world =
     ([Attempt 0 (Inr []), Attempt 1 (Inr []),
       Attempt 2 (Inr [''instagram_videos/instagram_video_1_AAA.mp4''])],
      [''instagram_videos/instagram_video_1_AAA.mp4''],
      \<lparr>files = [(''instagram_videos/instagram_video_1_AAA.mp4'', ''video of AAA'')],
       calls = 4\<rparr>)"
  by (simp add: upt_3 download_defs empty_world_def)

lemma late_upload:
  "upload_loop (await_upload transcript_hasher refusing_network main_flic_token ''cats'')
     [''instagram_videos/instagram_video_1_AAA.mp4'']
     \<lparr>files = [(''instagram_videos/instagram_video_1_AAA.mp4'', ''video of AAA'')], calls = 4\<rparr> =
   ([Publish ''instagram_videos/instagram_video_1_AAA.mp4'' (Inl (AttributeError ''response''))],
    \<lparr>files = [(''instagram_videos/instagram_video_1_AAA.mp4'', ''video of AAA'')], calls = 6\<rparr>)"
  by (simp add: await_upload_def upload_video_to_socialverse_def get_upload_url_def
      upload_video_def generate_file_hash_def os_path_getsize_def send_def tick_def
      refusing_network_def upload_url_request_def raise_for_status_def response_json_def
      except_handler_def)

lemma late_main:
  "fst (main (late_browser 2) appending_instaloader transcript_hasher refusing_network ''cats''
      empty_world) =
     [Attempt 0 (Inr []), Attempt 1 (Inr [])]
     @ Attempt 2 (Inr [''instagram_videos/instagram_video_1_AAA.mp4''])
     # [Close,
        Publish ''instagram_videos/instagram_video_1_AAA.mp4'' (Inl (AttributeError ''response''))]"
  by (simp add: main_def late_retry late_upload del: upload_loop.simps retry_loop.simps)

text \<open>
  C3. In every run of \<^verbatim>\<open>main\<close>, for every browser, Instaloader, network and keyword,
  \<^verbatim>\<open>download_videos\<close> is called at most three times, and no call follows one that
  returned a non-empty list; when the first two calls return the empty list and the third
  a non-empty one, exactly the three attempts 0, 1 and 2 occur.
\<close>

theorem main_at_most_three_attempts:
  "length (filter is_attempt (fst (main B L H net SEARCH_KEYWORD w))) \<le> 3 \<and>
   (\<forall>pre k new_files post.
      fst (main B L H net SEARCH_KEYWORD w) = pre @ Attempt k (Inr new_files) # post
        \<and> new_files \<noteq> [] \<longrightarrow>
      filter is_attempt post = []) \<and>
   (\<forall>w1 w2 w3 new_files.
      download_videos B L ''instagram_videos'' SEARCH_KEYWORD 5 w = ([], w1) \<and>
      download_videos B L ''instagram_videos'' SEARCH_KEYWORD 5 w1 = ([], w2) \<and>
      download_videos B L ''instagram_videos'' SEARCH_KEYWORD 5 w2 = (new_files, w3) \<and>
      new_files \<noteq> [] \<longrightarrow>
      filter is_attempt (fst (main B L H net SEARCH_KEYWORD w)) =
        [Attempt 0 (Inr []), Attempt 1 (Inr []), Attempt 2 (Inr new_files)])"
proof -
  let ?a = "await_download_videos B L ''instagram_videos'' SEARCH_KEYWORD 5"
  from main_trace [of B L H net SEARCH_KEYWORD w]
  obtain evs2 where
    m: "fst (main B L H net SEARCH_KEYWORD w) = fst (retry_loop ?a [0..<3] [] w) @ Close # evs2"
    and n: "filter is_attempt evs2 = []"
    by blast
  have c1: "length (filter is_attempt (fst (main B L H net SEARCH_KEYWORD w))) \<le> 3"
    using retry_loop_attempts_le [of ?a "[0..<3]" "[]" w] m n by simp
  have c2: "filter is_attempt post = []"
    if h: "fst (main B L H net SEARCH_KEYWORD w) = pre @ Attempt k (Inr new_files) # post
        \<and> new_files \<noteq> []" for pre k new_files post
  proof -
    from h m have "fst (retry_loop ?a [0..<3] [] w) @ Close # evs2
        = pre @ Attempt k (Inr new_files) # post" by simp
    from attempt_in_retry_part [OF this n]
    obtain us where e: "fst (retry_loop ?a [0..<3] [] w) = pre @ Attempt k (Inr new_files) # us"
      and p: "post = us @ Close # evs2" by blast
    from h have "new_files \<noteq> []" by simp
    with retry_loop_stops [OF e] have "us = []" by simp
    with p n show ?thesis by simp
  qed
  have c3: "filter is_attempt (fst (main B L H net SEARCH_KEYWORD w)) =
        [Attempt 0 (Inr []), Attempt 1 (Inr []), Attempt 2 (Inr new_files)]"
    if h: "download_videos B L ''instagram_videos'' SEARCH_KEYWORD 5 w = ([], w1) \<and>
      download_videos B L ''instagram_videos'' SEARCH_KEYWORD 5 w1 = ([], w2) \<and>
      download_videos B L ''instagram_videos'' SEARCH_KEYWORD 5 w2 = (new_files, w3) \<and>
      new_files \<noteq> []" for w1 w2 w3 new_files
  proof -
    from h have "?a w = (Inr [], w1)" "?a w1 = (Inr [], w2)" "?a w2 = (Inr new_files, w3)"
      "new_files \<noteq> []"
      by (simp_all add: await_download_videos_def)
    then have "fst (retry_loop ?a [0..<3] [] w) =
        [Attempt 0 (Inr []), Attempt 1 (Inr []), Attempt 2 (Inr new_files)]"
      by (simp add: upt_3)
    with m n show ?thesis by simp
  qed
  from c1 c2 c3 show ?thesis by blast
qed

theorem main_at_most_three_attempts_witness:
  "download_videos (late_browser 2) appending_instaloader ''instagram_videos'' ''cats'' 5
     empty_world = ([], \<lparr>files = [], calls = 1\<rparr>) \<and>
   download_videos (late_browser 2) appending_instaloader ''instagram_videos'' ''cats'' 5
     \<lparr>files = [], calls = 1\<rparr> = ([], \<lparr>files = [], calls = 2\<rparr>) \<and>
   download_videos (late_browser 2) appending_instaloader ''instagram_videos'' ''cats'' 5
     \<lparr>files = [], calls = 2\<rparr> =
     ([''instagram_videos/instagram_video_1_AAA.mp4''],
      \<lparr>files = [(''instagram_videos/instagram_video_1_AAA.mp4'', ''video of AAA'')],
       calls = 4\<rparr>) \<and>
   [''instagram_videos/instagram_video_1_AAA.mp4''] \<noteq> [] \<and>
   filter is_attempt
     (fst (main (late_browser 2) appending_instaloader transcript_hasher refusing_network
             ''cats'' empty_world)) =
     [Attempt 0 (Inr []), Attempt 1 (Inr []),
      Attempt 2 (Inr [''instagram_videos/instagram_video_1_AAA.mp4''])] \<and>
   fst (main (late_browser 2) appending_instaloader transcript_hasher refusing_network ''cats''
      empty_world) =
     [Attempt 0 (Inr []), Attempt 1 (Inr [])]
     @ Attempt 2 (Inr [''instagram_videos/instagram_video_1_AAA.mp4''])
     # [Close,
        Publish ''instagram_videos/instagram_video_1_AAA.mp4'' (Inl (AttributeError ''response''))]
   \<and>
   filter is_attempt
     [Close,
      Publish ''instagram_videos/instagram_video_1_AAA.mp4'' (Inl (AttributeError ''response''))]
     = [] \<and>
   length (filter is_attempt
     (fst (main (late_browser 2) appending_instaloader transcript_hasher refusing_network
             ''cats'' empty_world))) \<le> 3"
proof -
  note d0 = late_download_0
  note d1 = late_download_1
  note d2 = late_download_2
  have n: "[''instagram_videos/instagram_video_1_AAA.mp4''] \<noteq> []" by simp
  note t = main_at_most_three_attempts [of "late_browser 2" appending_instaloader
      transcript_hasher refusing_network "''cats''" empty_world]
  note three = t [THEN conjunct2, THEN conjunct2, rule_format,
      OF conjI [OF d0 conjI [OF d1 conjI [OF d2 n]]]]
  note trace = late_main
  note stop = t [THEN conjunct2, THEN conjunct1, rule_format, OF conjI [OF trace n]]
  note bound = t [THEN conjunct1]
  show ?thesis
    by (intro conjI) (rule d0, rule d1, rule d2, rule n, rule three, rule trace, rule stop,
        rule bound)
qed

end
